theory Spec2Isabelle
  imports Main "HOL-Library.AList" "HOL-Library.Sublist"
begin

section \<open>Time, configuration and errors\<close>

text \<open>
  Instants (\<open>datetime.utcnow()\<close>, the counter store's clock) are whole seconds since the
  epoch; \<open>timedelta(minutes=m)\<close> and \<open>timedelta(days=d)\<close> are numbers of seconds.
  A request is served at one instant \<open>now\<close>: every clock reading of one handler call
  returns it.
\<close>

type_synonym time = int

definition timedelta_minutes :: "int \<Rightarrow> int" where
  "timedelta_minutes m = 60 * m"

definition timedelta_days :: "int \<Rightarrow> int" where
  "timedelta_days d = 86400 * d"

text \<open>\<open>app/config.py\<close>: the process-wide \<open>Settings\<close> object, read from the environment.\<close>

record settings =
  JWT_SECRET :: string
  JWT_ISSUER :: string
  ACCESS_TTL_MIN :: int
  REFRESH_TTL_DAYS :: int
  OTP_TTL_MIN :: int
  GOOGLE_CLIENT_ID :: "string option"

text \<open>The values \<open>Settings\<close> takes when the environment sets none of them.\<close>

definition default_settings :: settings where
  "default_settings =
     \<lparr>JWT_SECRET = ''dev-secret-key'', JWT_ISSUER = ''taskmanager'', ACCESS_TTL_MIN = 15,
      REFRESH_TTL_DAYS = 7, OTP_TTL_MIN = 10, GOOGLE_CLIENT_ID = None\<rparr>"

text \<open>
  Every exception a handler can end with: \<open>HTTPException(status_code, detail)\<close>, the
  ORM's refusal of \<open>scalar_one_or_none()\<close> on several rows, a unique constraint
  refusing an \<open>INSERT\<close>, the driver refusing a parameter of the wrong type, Python's
  own \<open>KeyError\<close> and \<open>IndexError\<close>, and passlib's errors (\<open>PasslibError\<close>
  carries the name of the exception class).
\<close>

datatype error =
    HTTPException int string
  | MultipleResultsFound
  | IntegrityError
  | DataError
  | KeyError string
  | IndexError
  | UnknownHashError
  | PasslibError string

text \<open>Python's \<open>s.split(sep)\<close> for a separator of one character.\<close>

fun split :: "char \<Rightarrow> string \<Rightarrow> string list" where
  "split sep [] = [[]]"
| "split sep (c # cs) =
     (if c = sep then [] # split sep cs
      else (case split sep cs of
              [] \<Rightarrow> [[c]]
            | w # ws \<Rightarrow> (c # w) # ws))"

section \<open>The rate limiter (\<open>AuthService.check_rate_limit\<close>)\<close>

text \<open>
  Modelled from the spec: the shared counter store behind \<open>redis_client\<close>
  (\<open>app/redis_client.py\<close> is not among the sources), "a shared atomic increment store
  with per-key expiry". A key holds an integer and, when it was written with a time to
  live, the instant at which it expires; \<open>GET\<close> of a missing or expired key answers
  nothing, \<open>SETEX\<close> writes a value that expires \<open>ttl\<close> seconds later, \<open>INCR\<close> adds one
  and keeps the expiry (a missing or expired key counts from zero and gets no expiry).
  The keys of the limiter are written by the limiter only, so the stored text always
  reads as an integer.
\<close>

type_synonym redis = "string \<rightharpoonup> int \<times> time option"

definition redis_live :: "redis \<Rightarrow> time \<Rightarrow> string \<Rightarrow> (int \<times> time option) option" where
  "redis_live r now key =
     (case r key of
        None \<Rightarrow> None
      | Some (v, None) \<Rightarrow> Some (v, None)
      | Some (v, Some e) \<Rightarrow> if e \<le> now then None else Some (v, Some e))"

definition redis_get :: "redis \<Rightarrow> time \<Rightarrow> string \<Rightarrow> int option" where
  "redis_get r now key = map_option fst (redis_live r now key)"

definition redis_setex :: "redis \<Rightarrow> time \<Rightarrow> string \<Rightarrow> int \<Rightarrow> int \<Rightarrow> redis" where
  "redis_setex r now key ttl v = r(key \<mapsto> (v, Some (now + ttl)))"

definition redis_incr :: "redis \<Rightarrow> time \<Rightarrow> string \<Rightarrow> redis" where
  "redis_incr r now key =
     (case redis_live r now key of
        None \<Rightarrow> r(key \<mapsto> (1, None))
      | Some (v, e) \<Rightarrow> r(key \<mapsto> (v + 1, e)))"

text \<open>
  \<open>check_rate_limit(key, limit=5, window=300)\<close>: the answer (\<open>True\<close> is "allowed") and
  the store afterwards. The three store commands of one call run at the instant \<open>now\<close>.
\<close>

definition check_rate_limit :: "redis \<Rightarrow> time \<Rightarrow> string \<Rightarrow> int \<Rightarrow> int \<Rightarrow> bool \<times> redis" where
  "check_rate_limit r now key limit window =
     (case redis_get r now key of
        None \<Rightarrow> (True, redis_setex r now key window 1)
      | Some current \<Rightarrow>
          if current \<ge> limit then (False, r)
          else (True, redis_incr r now key))"

text \<open>\<open>login\<close> calls the limiter with its defaults: five attempts in 300 seconds.\<close>

definition checkAndConsume :: "redis \<Rightarrow> time \<Rightarrow> string \<Rightarrow> bool \<times> redis" where
  "checkAndConsume r now key = check_rate_limit r now key 5 300"

text \<open>Successive calls for one key at the given instants: the answers and the final store.\<close>

fun attempts :: "redis \<Rightarrow> string \<Rightarrow> time list \<Rightarrow> bool list \<times> redis" where
  "attempts r key [] = ([], r)"
| "attempts r key (t # ts) =
     (case checkAndConsume r t key of
        (a, r') \<Rightarrow> (case attempts r' key ts of (as, r'') \<Rightarrow> (a # as, r'')))"


section \<open>Libraries outside the repository\<close>

text \<open>
  JSON values of token claims and the claim set of a token (a Python \<open>dict\<close>, kept as
  an association list; \<open>d.update({k: v})\<close> is \<open>AList.update k v d\<close>).
\<close>

datatype jval = JInt int | JStr string

type_synonym claims = "(string \<times> jval) list"

text \<open>A compact token once its three segments are decoded: header algorithm, payload, signature.\<close>

record jws =
  jws_alg :: string
  jws_payload :: claims
  jws_sig :: string

text \<open>
  The primitives of the third-party libraries are parameters of the model:
  \<^item> \<open>sha256_hexdigest s\<close> is \<open>hashlib.sha256(s.encode()).hexdigest()\<close>;
  \<^item> \<open>python_int s\<close> is Python's \<open>int(s)\<close> on text (\<open>None\<close>: it raised \<open>ValueError\<close>);
  \<^item> \<open>jws_parse\<close> and \<open>jws_compact\<close> read and write PyJWT's compact serialisation
    (\<open>None\<close>: the text is not a token), \<open>hmac_sha256 key (alg, payload)\<close> is the
    HS256 signature of the signing input;
  \<^item> \<open>verify_oauth2_token token client_id now\<close> is Google's verifier (\<open>None\<close>: it
    raised \<open>ValueError\<close>);
  \<^item> \<open>bcrypt_digest ident rounds salt secret\<close> is the checksum the bcrypt backend
    computes (\<open>Inl\<close>: the backend refused the secret).
\<close>

record externals =
  sha256_hexdigest :: "string \<Rightarrow> string"
  python_int :: "string \<Rightarrow> int option"
  jws_parse :: "string \<Rightarrow> jws option"
  jws_compact :: "jws \<Rightarrow> string"
  hmac_sha256 :: "string \<Rightarrow> string \<times> claims \<Rightarrow> string"
  verify_oauth2_token :: "string \<Rightarrow> string \<Rightarrow> time \<Rightarrow> (string \<times> string) list option"
  bcrypt_digest :: "string \<Rightarrow> nat \<Rightarrow> string \<Rightarrow> string \<Rightarrow> error + string"

subsection \<open>PyJWT: \<open>jwt.encode\<close> and \<open>jwt.decode\<close> with HS256\<close>

datatype jwt_error =
    DecodeError
  | InvalidAlgorithmError
  | InvalidSignatureError
  | ExpiredSignatureError
  | ImmatureSignatureError
  | InvalidIssuedAtError
  | InvalidAudienceError
  | InvalidSubjectError
  | InvalidJTIError

text \<open>\<open>jwt.encode(payload, key, algorithm="HS256")\<close>.\<close>

definition jwt_encode :: "externals \<Rightarrow> claims \<Rightarrow> string \<Rightarrow> string" where
  "jwt_encode L payload key =
     jws_compact L
       \<lparr>jws_alg = ''HS256'', jws_payload = payload,
        jws_sig = hmac_sha256 L key (''HS256'', payload)\<rparr>"

text \<open>
  The checks \<open>jwt.decode\<close> applies to the registered claims when it is called without
  \<open>issuer\<close>, \<open>audience\<close> and \<open>subject\<close>, in its order. \<open>iat\<close>, \<open>nbf\<close> and \<open>exp\<close>
  are read with \<open>int()\<close>; a claim that does not read as a number, an \<open>iat\<close> or an
  \<open>nbf\<close> still ahead, an \<open>exp\<close> that has passed, a non-empty \<open>aud\<close> nobody asked
  for, and a \<open>sub\<close> or \<open>jti\<close> that is not text are refused. The \<open>iss\<close> claim is
  compared only with an \<open>issuer\<close> argument, so it is not looked at here.
\<close>

fun numeric_claim :: "externals \<Rightarrow> jval \<Rightarrow> int option" where
  "numeric_claim L (JInt i) = Some i"
| "numeric_claim L (JStr s) = python_int L s"

definition validate_iat :: "externals \<Rightarrow> time \<Rightarrow> claims \<Rightarrow> jwt_error option" where
  "validate_iat L now payload =
     (case map_of payload ''iat'' of
        None \<Rightarrow> None
      | Some v \<Rightarrow>
          (case numeric_claim L v of
             None \<Rightarrow> Some InvalidIssuedAtError
           | Some iat \<Rightarrow> if iat > now then Some ImmatureSignatureError else None))"

definition validate_nbf :: "externals \<Rightarrow> time \<Rightarrow> claims \<Rightarrow> jwt_error option" where
  "validate_nbf L now payload =
     (case map_of payload ''nbf'' of
        None \<Rightarrow> None
      | Some v \<Rightarrow>
          (case numeric_claim L v of
             None \<Rightarrow> Some DecodeError
           | Some nbf \<Rightarrow> if nbf > now then Some ImmatureSignatureError else None))"

definition validate_exp :: "externals \<Rightarrow> time \<Rightarrow> claims \<Rightarrow> jwt_error option" where
  "validate_exp L now payload =
     (case map_of payload ''exp'' of
        None \<Rightarrow> None
      | Some v \<Rightarrow>
          (case numeric_claim L v of
             None \<Rightarrow> Some DecodeError
           | Some exp \<Rightarrow> if exp \<le> now then Some ExpiredSignatureError else None))"

definition validate_aud :: "claims \<Rightarrow> jwt_error option" where
  "validate_aud payload =
     (case map_of payload ''aud'' of
        None \<Rightarrow> None
      | Some aud \<Rightarrow>
          if aud = JStr [] \<or> aud = JInt 0 then None else Some InvalidAudienceError)"

definition validate_sub :: "claims \<Rightarrow> jwt_error option" where
  "validate_sub payload =
     (case map_of payload ''sub'' of
        Some (JInt _) \<Rightarrow> Some InvalidSubjectError
      | _ \<Rightarrow> None)"

definition validate_jti :: "claims \<Rightarrow> jwt_error option" where
  "validate_jti payload =
     (case map_of payload ''jti'' of
        Some (JInt _) \<Rightarrow> Some InvalidJTIError
      | _ \<Rightarrow> None)"

text \<open>The first check that fails decides; a payload that passes them all is returned.\<close>

fun first_error :: "jwt_error option list \<Rightarrow> jwt_error option" where
  "first_error [] = None"
| "first_error (None # checks) = first_error checks"
| "first_error (Some e # checks) = Some e"

definition validate_claims :: "externals \<Rightarrow> time \<Rightarrow> claims \<Rightarrow> jwt_error + claims" where
  "validate_claims L now payload =
     (case first_error
             [validate_iat L now payload, validate_nbf L now payload, validate_exp L now payload,
              validate_aud payload, validate_sub payload, validate_jti payload] of
        Some e \<Rightarrow> Inl e
      | None \<Rightarrow> Inr payload)"

text \<open>\<open>jwt.decode(token, key, algorithms=algorithms)\<close> at the instant \<open>now\<close>.\<close>

definition jwt_decode :: "externals \<Rightarrow> time \<Rightarrow> string \<Rightarrow> string \<Rightarrow> string list \<Rightarrow> jwt_error + claims" where
  "jwt_decode L now token key algorithms =
     (case jws_parse L token of
        None \<Rightarrow> Inl DecodeError
      | Some j \<Rightarrow>
          if jws_alg j \<notin> set algorithms then Inl InvalidAlgorithmError
          else if jws_sig j \<noteq> hmac_sha256 L key (jws_alg j, jws_payload j)
            then Inl InvalidSignatureError
          else validate_claims L now (jws_payload j))"

subsection \<open>passlib: \<open>CryptContext(schemes=["bcrypt"])\<close>\<close>

text \<open>
  Modelled from the spec: the "slow, salted, adaptive hash (bcrypt-class algorithm)"
  behind \<open>pwd_context\<close>. It is passlib's bcrypt handler, which is not among the sources;
  the model follows its documented behaviour. A hash is the text
  \<open>$2b$\<close> \<open>rounds\<close> \<open>$\<close> \<open>salt\<close> \<open>checksum\<close>: one of five identifiers, a cost of two
  digits between 4 and 31, 22 characters of salt and 31 of checksum, both over the
  bcrypt alphabet. A secret longer than passlib's limit of 4096 or containing a NUL
  character is refused. (The padding bits of salt and checksum, which passlib repairs
  with a warning, are not modelled.)
\<close>

definition bcrypt_idents :: "string list" where
  "bcrypt_idents = [''$2$'', ''$2a$'', ''$2x$'', ''$2y$'', ''$2b$'']"

definition bcrypt64 :: string where
  "bcrypt64 = ''./ABCDEFGHIJKLMNOPQRSTUVWXYZabcdefghijklmnopqrstuvwxyz0123456789''"

definition bcrypt_salt_ok :: "string \<Rightarrow> bool" where
  "bcrypt_salt_ok salt \<longleftrightarrow> length salt = 22 \<and> list_all (\<lambda>c. c \<in> set bcrypt64) salt"

definition bcrypt_checksum_ok :: "string \<Rightarrow> bool" where
  "bcrypt_checksum_ok chk \<longleftrightarrow> length chk = 31 \<and> list_all (\<lambda>c. c \<in> set bcrypt64) chk"

definition digit :: "char \<Rightarrow> nat option" where
  "digit c = (if c \<in> set ''0123456789'' then Some (of_char c - 48) else None)"

definition bcrypt_rounds :: "string \<Rightarrow> nat option" where
  "bcrypt_rounds s =
     (case s of
        [a, b] \<Rightarrow>
          (case (digit a, digit b) of
             (Some x, Some y) \<Rightarrow>
               if 4 \<le> 10 * x + y \<and> 10 * x + y \<le> 31 then Some (10 * x + y) else None
           | _ \<Rightarrow> None)
      | _ \<Rightarrow> None)"

text \<open>\<open>validate_secret\<close> and the handler's check for NUL, then the backend.\<close>

definition bcrypt_calc_checksum ::
  "externals \<Rightarrow> string \<Rightarrow> nat \<Rightarrow> string \<Rightarrow> string \<Rightarrow> error + string" where
  "bcrypt_calc_checksum L ident rounds salt secret =
     (if length secret > 4096 then Inl (PasslibError ''PasswordSizeError'')
      else if CHR 0x00 \<in> set secret then Inl (PasslibError ''NullPasswordError'')
      else bcrypt_digest L ident rounds salt secret)"

text \<open>
  \<open>bcrypt.from_string(hash)\<close>: identifier, cost, salt and checksum of a hash; every
  malformed hash ends in a \<open>ValueError\<close>.
\<close>

definition bcrypt_from_string :: "string \<Rightarrow> error + string \<times> nat \<times> string \<times> string" where
  "bcrypt_from_string h =
     (case List.find (\<lambda>ident. prefix ident h) bcrypt_idents of
        None \<Rightarrow> Inl (PasslibError ''ValueError'')
      | Some ident \<Rightarrow>
          if ident = ''$2x$'' then Inl (PasslibError ''ValueError'')
          else (case split CHR ''$'' (drop (length ident) h) of
                  [rounds_str, data] \<Rightarrow>
                    (case bcrypt_rounds rounds_str of
                       None \<Rightarrow> Inl (PasslibError ''ValueError'')
                     | Some rounds \<Rightarrow>
                         if bcrypt_salt_ok (take 22 data) \<and> bcrypt_checksum_ok (drop 22 data)
                         then Inr (ident, rounds, take 22 data, drop 22 data)
                         else Inl (PasslibError ''ValueError''))
                | _ \<Rightarrow> Inl (PasslibError ''ValueError'')))"

text \<open>
  \<open>bcrypt.hash(secret)\<close> with the salt it draws (22 characters of the bcrypt
  alphabet), the default identifier and the default cost; \<open>bcrypt.verify(secret, hash)\<close>.
\<close>

definition bcrypt_hash :: "externals \<Rightarrow> string \<Rightarrow> string \<Rightarrow> error + string" where
  "bcrypt_hash L salt secret =
     (case bcrypt_calc_checksum L ''$2b$'' 12 salt secret of
        Inl e \<Rightarrow> Inl e
      | Inr chk \<Rightarrow> Inr (''$2b$12$'' @ salt @ chk))"

definition bcrypt_verify :: "externals \<Rightarrow> string \<Rightarrow> string \<Rightarrow> error + bool" where
  "bcrypt_verify L secret h =
     (if length secret > 4096 then Inl (PasslibError ''PasswordSizeError'')
      else (case bcrypt_from_string h of
              Inl e \<Rightarrow> Inl e
            | Inr (ident, rounds, salt, chk) \<Rightarrow>
                (case bcrypt_calc_checksum L ident rounds salt secret of
                   Inl e \<Rightarrow> Inl e
                 | Inr computed \<Rightarrow> Inr (computed = chk))))"

text \<open>
  \<open>pwd_context.verify(secret, hash)\<close> first identifies the scheme of the hash by its
  prefix; a hash that no configured scheme identifies raises \<open>UnknownHashError\<close>, an
  identified one goes to the bcrypt handler. \<open>pwd_context.hash(secret)\<close> goes to the
  handler of the only scheme.
\<close>

definition bcrypt_identify :: "string \<Rightarrow> bool" where
  "bcrypt_identify h = list_ex (\<lambda>ident. prefix ident h) bcrypt_idents"

definition pwd_context_verify :: "externals \<Rightarrow> string \<Rightarrow> string \<Rightarrow> error + bool" where
  "pwd_context_verify L secret h =
     (if bcrypt_identify h then bcrypt_verify L secret h else Inl UnknownHashError)"

definition pwd_context_hash :: "externals \<Rightarrow> string \<Rightarrow> string \<Rightarrow> error + string" where
  "pwd_context_hash L salt secret = bcrypt_hash L salt secret"

section \<open>\<open>AuthService\<close> (\<open>app/services/auth.py\<close>)\<close>

text \<open>\<open>hash_password\<close>; the salt passlib draws is the argument \<open>salt\<close>.\<close>

definition hash_password :: "externals \<Rightarrow> string \<Rightarrow> string \<Rightarrow> error + string" where
  "hash_password L salt password = pwd_context_hash L salt password"

definition verify_password :: "externals \<Rightarrow> string \<Rightarrow> string \<Rightarrow> error + bool" where
  "verify_password L plain_password hashed_password =
     pwd_context_verify L plain_password hashed_password"

definition hash_token :: "externals \<Rightarrow> string \<Rightarrow> string" where
  "hash_token L token = sha256_hexdigest L token"

text \<open>
  \<open>create_access_token(data)\<close>: the copy of \<open>data\<close> with \<open>exp\<close> and \<open>iss\<close> set,
  signed with the shared secret.
\<close>

definition create_access_token :: "externals \<Rightarrow> settings \<Rightarrow> time \<Rightarrow> claims \<Rightarrow> string" where
  "create_access_token L cfg now data =
     (let expire = now + timedelta_minutes (ACCESS_TTL_MIN cfg);
          to_encode = AList.update ''iss'' (JStr (JWT_ISSUER cfg))
                        (AList.update ''exp'' (JInt expire) data)
      in jwt_encode L to_encode (JWT_SECRET cfg))"

text \<open>\<open>verify_token(token)\<close>: the payload, or \<open>None\<close> on any \<open>PyJWTError\<close>.\<close>

definition verify_token :: "externals \<Rightarrow> settings \<Rightarrow> time \<Rightarrow> string \<Rightarrow> claims option" where
  "verify_token L cfg now token =
     (case jwt_decode L now token (JWT_SECRET cfg) [''HS256''] of
        Inr payload \<Rightarrow> Some payload
      | Inl _ \<Rightarrow> None)"

text \<open>\<open>verify_google_token(token)\<close>; \<open>not settings.GOOGLE_CLIENT_ID\<close> holds for \<open>None\<close> and for the empty string.\<close>

definition mock_user_info :: "(string \<times> string) list" where
  "mock_user_info =
     [(''email'', ''test@example.com''), (''name'', ''Test User''), (''sub'', ''mock_google_id'')]"

definition verify_google_token ::
  "externals \<Rightarrow> settings \<Rightarrow> time \<Rightarrow> string \<Rightarrow> (string \<times> string) list option" where
  "verify_google_token L cfg now token =
     (let mock = (if token = ''MOCK_ID_TOKEN'' then Some mock_user_info else None)
      in case GOOGLE_CLIENT_ID cfg of
           None \<Rightarrow> mock
         | Some client_id \<Rightarrow>
             if client_id = [] then mock
             else (case verify_oauth2_token L token client_id now of
                     Some idinfo \<Rightarrow> Some idinfo
                   | None \<Rightarrow> None))"


section \<open>The database (\<open>app/models\<close>, \<open>alembic/versions/001_initial_migration.py\<close>)\<close>

text \<open>
  One record per table, a table being the list of its rows in insertion order. The
  \<open>created_at\<close> columns are left out: no handler reads them.
\<close>

record Organization =
  org_id :: int
  org_name :: string
  org_subdomain :: string

record User =
  user_id :: int
  user_email :: string
  user_password_hash :: "string option"

record Membership =
  mem_id :: int
  mem_user_id :: int
  mem_org_id :: int
  mem_role :: string

record OtpCode =
  otp_id :: int
  otp_user_id :: int
  otp_code :: string
  otp_expires_at :: time
  otp_consumed :: "time option"

record RefreshToken =
  rt_id :: int
  rt_user_id :: int
  rt_org_id :: int
  rt_token_hash :: string
  rt_expires_at :: time
  rt_revoked :: bool

record db =
  organizations :: "Organization list"
  users :: "User list"
  memberships :: "Membership list"
  otp_codes :: "OtpCode list"
  refresh_tokens :: "RefreshToken list"

text \<open>
  The primary keys and the unique constraints of the migration: \<open>organizations.subdomain\<close>,
  \<open>users.email\<close>, \<open>memberships (user_id, org_id)\<close> and \<open>refresh_tokens.token_hash\<close>.
\<close>

definition wf_db :: "db \<Rightarrow> bool" where
  "wf_db d \<longleftrightarrow>
     distinct (map org_id (organizations d)) \<and>
     distinct (map org_subdomain (organizations d)) \<and>
     distinct (map user_id (users d)) \<and>
     distinct (map user_email (users d)) \<and>
     distinct (map mem_id (memberships d)) \<and>
     distinct (map (\<lambda>m. (mem_user_id m, mem_org_id m)) (memberships d)) \<and>
     distinct (map otp_id (otp_codes d)) \<and>
     distinct (map rt_id (refresh_tokens d)) \<and>
     distinct (map rt_token_hash (refresh_tokens d))"

text \<open>An autoincremented primary key: one more than every key of the table.\<close>

definition next_id :: "int list \<Rightarrow> int" where
  "next_id ids = fold max ids 0 + 1"

text \<open>\<open>Result.scalar_one_or_none()\<close> and \<open>Result.first()\<close> on the rows a query selects.\<close>

fun scalar_one_or_none :: "'a list \<Rightarrow> error + 'a option" where
  "scalar_one_or_none [] = Inr None"
| "scalar_one_or_none [x] = Inr (Some x)"
| "scalar_one_or_none (x # y # ys) = Inl MultipleResultsFound"

fun first :: "'a list \<Rightarrow> 'a option" where
  "first [] = None"
| "first (x # xs) = Some x"

text \<open>
  \<open>db.add(row)\<close> followed by a flush or a commit: the row gets its key and is written,
  unless a unique constraint refuses it. Foreign keys are not modelled: the handlers
  insert the ids of rows they have just read or created.
\<close>

definition add_organization :: "db \<Rightarrow> string \<Rightarrow> string \<Rightarrow> error + Organization \<times> db" where
  "add_organization d name subdomain =
     (if subdomain \<in> set (map org_subdomain (organizations d)) then Inl IntegrityError
      else (let org = \<lparr>org_id = next_id (map org_id (organizations d)),
                        org_name = name, org_subdomain = subdomain\<rparr>
            in Inr (org, d\<lparr>organizations := organizations d @ [org]\<rparr>)))"

definition add_user :: "db \<Rightarrow> string \<Rightarrow> string option \<Rightarrow> error + User \<times> db" where
  "add_user d email password_hash =
     (if email \<in> set (map user_email (users d)) then Inl IntegrityError
      else (let user = \<lparr>user_id = next_id (map user_id (users d)),
                         user_email = email, user_password_hash = password_hash\<rparr>
            in Inr (user, d\<lparr>users := users d @ [user]\<rparr>)))"

definition add_membership :: "db \<Rightarrow> int \<Rightarrow> int \<Rightarrow> string \<Rightarrow> error + Membership \<times> db" where
  "add_membership d uid oid role =
     (if (uid, oid) \<in> set (map (\<lambda>m. (mem_user_id m, mem_org_id m)) (memberships d))
      then Inl IntegrityError
      else (let membership = \<lparr>mem_id = next_id (map mem_id (memberships d)),
                               mem_user_id = uid, mem_org_id = oid, mem_role = role\<rparr>
            in Inr (membership, d\<lparr>memberships := memberships d @ [membership]\<rparr>)))"

definition add_refresh_token :: "db \<Rightarrow> int \<Rightarrow> int \<Rightarrow> string \<Rightarrow> time \<Rightarrow> error + RefreshToken \<times> db" where
  "add_refresh_token d uid oid token_hash expires_at =
     (if token_hash \<in> set (map rt_token_hash (refresh_tokens d)) then Inl IntegrityError
      else (let refresh_token = \<lparr>rt_id = next_id (map rt_id (refresh_tokens d)),
                                  rt_user_id = uid, rt_org_id = oid, rt_token_hash = token_hash,
                                  rt_expires_at = expires_at, rt_revoked = False\<rparr>
            in Inr (refresh_token, d\<lparr>refresh_tokens := refresh_tokens d @ [refresh_token]\<rparr>)))"

section \<open>Tenant resolution (\<open>app/middleware/tenant.py\<close>)\<close>

text \<open>The request, as far as the resolver reads it: its headers, names in lower case.\<close>

record Request =
  headers :: "(string \<times> string) list"

text \<open>
  The fallback of \<open>resolve_organization\<close>: the organization named by the \<open>org_id\<close> claim
  of a bearer token. An \<open>org_id\<close> that is text is refused by the driver, the column
  being an integer.
\<close>

definition resolve_by_token :: "externals \<Rightarrow> settings \<Rightarrow> time \<Rightarrow> Request \<Rightarrow> db \<Rightarrow> error + Organization option" where
  "resolve_by_token L cfg now request d =
     (case map_of (headers request) ''authorization'' of
        None \<Rightarrow> Inr None
      | Some auth_header \<Rightarrow>
          if auth_header \<noteq> [] \<and> prefix ''Bearer '' auth_header then
            (case split CHR '' '' auth_header of
               _ # token # _ \<Rightarrow>
                 (case verify_token L cfg now token of
                    None \<Rightarrow> Inr None
                  | Some payload \<Rightarrow>
                      if payload \<noteq> [] \<and> map_of payload ''org_id'' \<noteq> None then
                        (case map_of payload ''org_id'' of
                           Some (JInt i) \<Rightarrow>
                             scalar_one_or_none (filter (\<lambda>org. org_id org = i) (organizations d))
                         | _ \<Rightarrow> Inl DataError)
                      else Inr None)
             | _ \<Rightarrow> Inl IndexError)
          else Inr None)"

definition resolve_organization :: "externals \<Rightarrow> settings \<Rightarrow> time \<Rightarrow> Request \<Rightarrow> db \<Rightarrow> error + Organization option" where
  "resolve_organization L cfg now request d =
     (let host = (case map_of (headers request) ''host'' of None \<Rightarrow> [] | Some h \<Rightarrow> h)
      in if CHR ''.'' \<in> set host then
           (case split CHR ''.'' host of
              [] \<Rightarrow> Inl IndexError
            | subdomain # _ \<Rightarrow>
                if subdomain \<noteq> [] \<and> subdomain \<noteq> ''www'' then
                  (case scalar_one_or_none
                          (filter (\<lambda>org. org_subdomain org = subdomain) (organizations d)) of
                     Inl e \<Rightarrow> Inl e
                   | Inr (Some org) \<Rightarrow> Inr (Some org)
                   | Inr None \<Rightarrow> resolve_by_token L cfg now request d)
                else resolve_by_token L cfg now request d)
         else resolve_by_token L cfg now request d)"

section \<open>The handlers (\<open>app/routers/auth.py\<close>)\<close>

record RegisterRequest =
  reg_organization_name :: string
  reg_subdomain :: string
  reg_email :: string
  reg_password :: string

record VerifyOtpRequest =
  otp_req_email :: string
  otp_req_code :: string

record GoogleLoginRequest =
  id_token :: string

record TokenResponse =
  access_token :: string
  resp_refresh_token :: string
  token_type :: string
  expires_in :: int

text \<open>
  A handler returns its response or the exception it ended with, and the database as
  committed when it ends: what a handler wrote and did not commit is gone with its
  session.

  The block "Generate tokens", the same in the four handlers that issue a pair: the
  access token for \<open>(user_id, org_id, role)\<close>, the refresh token \<open>rnd\<close> drawn by
  \<open>create_refresh_token()\<close> (\<open>secrets.token_urlsafe(32)\<close>), its row, and the commit.
  \<open>committed\<close> is the database as last committed, \<open>pending\<close> the session's view.
\<close>

definition generate_tokens ::
  "externals \<Rightarrow> settings \<Rightarrow> time \<Rightarrow> string \<Rightarrow> int \<Rightarrow> int \<Rightarrow> string \<Rightarrow> db \<Rightarrow> db
     \<Rightarrow> (error + TokenResponse) \<times> db" where
  "generate_tokens L cfg now rnd uid oid role committed pending =
     (let access = create_access_token L cfg now
                     [(''user_id'', JInt uid), (''org_id'', JInt oid), (''role'', JStr role)];
          refresh_token_str = rnd
      in case add_refresh_token pending uid oid (hash_token L refresh_token_str)
                (now + timedelta_days (REFRESH_TTL_DAYS cfg)) of
           Inl e \<Rightarrow> (Inl e, committed)
         | Inr (_, d') \<Rightarrow>
             (Inr \<lparr>access_token = access, resp_refresh_token = refresh_token_str,
                   token_type = ''bearer'', expires_in = ACCESS_TTL_MIN cfg * 60\<rparr>, d'))"

text \<open>\<open>POST /auth/register\<close>; \<open>salt\<close> is the salt \<open>hash_password\<close> draws.\<close>

definition register ::
  "externals \<Rightarrow> settings \<Rightarrow> time \<Rightarrow> string \<Rightarrow> string \<Rightarrow> RegisterRequest \<Rightarrow> db
     \<Rightarrow> (error + TokenResponse) \<times> db" where
  "register L cfg now salt rnd request d =
     (case scalar_one_or_none
             (filter (\<lambda>org. org_subdomain org = reg_subdomain request) (organizations d)) of
        Inl e \<Rightarrow> (Inl e, d)
      | Inr (Some _) \<Rightarrow> (Inl (HTTPException 400 ''Subdomain already exists''), d)
      | Inr None \<Rightarrow>
     (case scalar_one_or_none (filter (\<lambda>u. user_email u = reg_email request) (users d)) of
        Inl e \<Rightarrow> (Inl e, d)
      | Inr (Some _) \<Rightarrow> (Inl (HTTPException 400 ''Email already registered''), d)
      | Inr None \<Rightarrow>
     (case add_organization d (reg_organization_name request) (reg_subdomain request) of
        Inl e \<Rightarrow> (Inl e, d)
      | Inr (org, d1) \<Rightarrow>
     (case hash_password L salt (reg_password request) of
        Inl e \<Rightarrow> (Inl e, d)
      | Inr password_hash \<Rightarrow>
     (case add_user d1 (reg_email request) (Some password_hash) of
        Inl e \<Rightarrow> (Inl e, d)
      | Inr (user, d2) \<Rightarrow>
     (case add_membership d2 (user_id user) (org_id org) ''admin'' of
        Inl e \<Rightarrow> (Inl e, d)
      | Inr (membership, d3) \<Rightarrow>
          generate_tokens L cfg now rnd (user_id user) (org_id org) ''admin'' d3 d3))))))"

text \<open>\<open>POST /auth/verify-otp\<close>.\<close>

definition verify_otp ::
  "externals \<Rightarrow> settings \<Rightarrow> time \<Rightarrow> string \<Rightarrow> VerifyOtpRequest \<Rightarrow> db
     \<Rightarrow> (error + TokenResponse) \<times> db" where
  "verify_otp L cfg now rnd request d =
     (case scalar_one_or_none (filter (\<lambda>u. user_email u = otp_req_email request) (users d)) of
        Inl e \<Rightarrow> (Inl e, d)
      | Inr None \<Rightarrow> (Inl (HTTPException 401 ''Invalid credentials''), d)
      | Inr (Some user) \<Rightarrow>
     (case scalar_one_or_none
             (filter (\<lambda>c. otp_user_id c = user_id user \<and> otp_code c = otp_req_code request
                          \<and> otp_expires_at c > now \<and> otp_consumed c = None)
                     (otp_codes d)) of
        Inl e \<Rightarrow> (Inl e, d)
      | Inr None \<Rightarrow> (Inl (HTTPException 401 ''Invalid or expired OTP''), d)
      | Inr (Some otp) \<Rightarrow>
     (let d1 = d\<lparr>otp_codes :=
                   map (\<lambda>c. if otp_id c = otp_id otp then c\<lparr>otp_consumed := Some now\<rparr> else c)
                       (otp_codes d)\<rparr>
      in case scalar_one_or_none (filter (\<lambda>m. mem_user_id m = user_id user) (memberships d1)) of
           Inl e \<Rightarrow> (Inl e, d)
         | Inr None \<Rightarrow> (Inl (HTTPException 400 ''User has no organization membership''), d)
         | Inr (Some membership) \<Rightarrow>
             generate_tokens L cfg now rnd (user_id user) (mem_org_id membership)
               (mem_role membership) d d1)))"

text \<open>\<open>POST /auth/login/google\<close>; \<open>req\<close> is the HTTP request the tenant is resolved from.\<close>

definition google_login ::
  "externals \<Rightarrow> settings \<Rightarrow> time \<Rightarrow> string \<Rightarrow> GoogleLoginRequest \<Rightarrow> Request \<Rightarrow> db
     \<Rightarrow> (error + TokenResponse) \<times> db" where
  "google_login L cfg now rnd request req d =
     (case verify_google_token L cfg now (id_token request) of
        None \<Rightarrow> (Inl (HTTPException 401 ''Invalid Google token''), d)
      | Some user_info \<Rightarrow>
     if user_info = [] then (Inl (HTTPException 401 ''Invalid Google token''), d) else
     (case resolve_organization L cfg now req d of
        Inl e \<Rightarrow> (Inl e, d)
      | Inr None \<Rightarrow> (Inl (HTTPException 400 ''Organization context required''), d)
      | Inr (Some org) \<Rightarrow>
     (case map_of user_info ''email'' of
        None \<Rightarrow> (Inl (KeyError ''email''), d)
      | Some email \<Rightarrow>
     (case scalar_one_or_none (filter (\<lambda>u. user_email u = email) (users d)) of
        Inl e \<Rightarrow> (Inl e, d)
      | Inr found \<Rightarrow>
     (case (case found of Some user \<Rightarrow> Inr (user, d) | None \<Rightarrow> add_user d email None) of
        Inl e \<Rightarrow> (Inl e, d)
      | Inr (user, d1) \<Rightarrow>
     (case scalar_one_or_none
             (filter (\<lambda>m. mem_user_id m = user_id user \<and> mem_org_id m = org_id org)
                     (memberships d1)) of
        Inl e \<Rightarrow> (Inl e, d)
      | Inr found_membership \<Rightarrow>
     (case (case found_membership of
              Some membership \<Rightarrow> Inr (membership, d1)
            | None \<Rightarrow> add_membership d1 (user_id user) (org_id org) ''member'') of
        Inl e \<Rightarrow> (Inl e, d)
      | Inr (membership, d2) \<Rightarrow>
          generate_tokens L cfg now rnd (user_id user) (org_id org) (mem_role membership)
            d2 d2)))))))"

text \<open>\<open>POST /auth/refresh\<close>.\<close>

definition refresh_token ::
  "externals \<Rightarrow> settings \<Rightarrow> time \<Rightarrow> string \<Rightarrow> string \<Rightarrow> db \<Rightarrow> (error + TokenResponse) \<times> db" where
  "refresh_token L cfg now rnd token d =
     (let token_hash = hash_token L token
      in case scalar_one_or_none
                (filter (\<lambda>t. rt_token_hash t = token_hash \<and> rt_expires_at t > now
                             \<and> rt_revoked t = False)
                        (refresh_tokens d)) of
           Inl e \<Rightarrow> (Inl e, d)
         | Inr None \<Rightarrow> (Inl (HTTPException 401 ''Invalid refresh token''), d)
         | Inr (Some token_record) \<Rightarrow>
     (case first [(u, m). u \<leftarrow> users d, m \<leftarrow> memberships d,
                          user_id u = mem_user_id m,
                          user_id u = rt_user_id token_record,
                          mem_org_id m = rt_org_id token_record] of
        None \<Rightarrow> (Inl (HTTPException 401 ''User or membership not found''), d)
      | Some (user, membership) \<Rightarrow>
     (let d1 = d\<lparr>refresh_tokens :=
                   map (\<lambda>t. if rt_id t = rt_id token_record then t\<lparr>rt_revoked := True\<rparr> else t)
                       (refresh_tokens d)\<rparr>
      in generate_tokens L cfg now rnd (user_id user) (mem_org_id membership)
           (mem_role membership) d d1)))"

section \<open>Example data\<close>

text \<open>
  The rows \<open>seed.py\<close> creates: two organizations, an admin and a member in each. The
  stored password hashes stand for the bcrypt hashes of the seeded passwords.
\<close>

definition seed_db :: db where
  "seed_db =
     \<lparr>organizations =
        [\<lparr>org_id = 1, org_name = ''Acme Corporation'', org_subdomain = ''acme''\<rparr>,
         \<lparr>org_id = 2, org_name = ''Beta Company'', org_subdomain = ''beta''\<rparr>],
      users =
        [\<lparr>user_id = 1, user_email = ''admin@acme.com'', user_password_hash = Some ''$2b$12$h1''\<rparr>,
         \<lparr>user_id = 2, user_email = ''member@acme.com'', user_password_hash = Some ''$2b$12$h2''\<rparr>,
         \<lparr>user_id = 3, user_email = ''admin@beta.com'', user_password_hash = Some ''$2b$12$h3''\<rparr>,
         \<lparr>user_id = 4, user_email = ''member@beta.com'', user_password_hash = Some ''$2b$12$h4''\<rparr>],
      memberships =
        [\<lparr>mem_id = 1, mem_user_id = 1, mem_org_id = 1, mem_role = ''admin''\<rparr>,
         \<lparr>mem_id = 2, mem_user_id = 2, mem_org_id = 1, mem_role = ''member''\<rparr>,
         \<lparr>mem_id = 3, mem_user_id = 3, mem_org_id = 2, mem_role = ''admin''\<rparr>,
         \<lparr>mem_id = 4, mem_user_id = 4, mem_org_id = 2, mem_role = ''member''\<rparr>],
      otp_codes = [],
      refresh_tokens = []\<rparr>"

text \<open>
  An instance of the library primitives to run the model on: three compact tokens with
  their decoded segments (any other token is written as the text of its segments), a
  signature that names its key, a digest that names its
  input, \<open>int()\<close> on strings of decimal digits, a checksum made of the first
  characters of secret and salt. \<open>beta-token\<close> is an access token of organization 2 signed with the default
  secret, \<open>foreign-token\<close> one that names another issuer, \<open>forged-token\<close> one signed
  with another key.
\<close>

definition example_tokens :: "(string \<times> jws) list" where
  "example_tokens =
     [(''beta-token'',
       \<lparr>jws_alg = ''HS256'',
        jws_payload = [(''user_id'', JInt 3), (''org_id'', JInt 2), (''role'', JStr ''admin''),
                       (''exp'', JInt 1900), (''iss'', JStr ''taskmanager'')],
        jws_sig = ''hs256:dev-secret-key''\<rparr>),
      (''foreign-token'',
       \<lparr>jws_alg = ''HS256'',
        jws_payload = [(''user_id'', JInt 3), (''org_id'', JInt 2), (''role'', JStr ''admin''),
                       (''exp'', JInt 1900), (''iss'', JStr ''another-service'')],
        jws_sig = ''hs256:dev-secret-key''\<rparr>),
      (''forged-token'',
       \<lparr>jws_alg = ''HS256'',
        jws_payload = [(''user_id'', JInt 3), (''org_id'', JInt 2), (''role'', JStr ''admin''),
                       (''exp'', JInt 1900), (''iss'', JStr ''taskmanager'')],
        jws_sig = ''hs256:guessed-key''\<rparr>)]"

text \<open>The text of a number and of a claim set, for tokens outside the table.\<close>

function render_nat :: "nat \<Rightarrow> string" where
  "render_nat n =
     (if n < 10 then [''0123456789'' ! n]
      else render_nat (n div 10) @ [''0123456789'' ! (n mod 10)])"
  by pat_completeness auto
termination
  by (relation "measure id") auto

definition render_jval :: "jval \<Rightarrow> string" where
  "render_jval v =
     (case v of
        JInt i \<Rightarrow> (if i < 0 then ''-'' else []) @ render_nat (nat \<bar>i\<bar>)
      | JStr s \<Rightarrow> s)"

definition render_claims :: "claims \<Rightarrow> string" where
  "render_claims payload = concat (map (\<lambda>(k, v). k @ ''='' @ render_jval v @ '';'') payload)"

definition decimal :: "string \<Rightarrow> int option" where
  "decimal s =
     (if s \<noteq> [] \<and> list_all (\<lambda>c. c \<in> set ''0123456789'') s
      then Some (fold (\<lambda>c n. 10 * n + (of_char c - 48)) s 0)
      else None)"

definition example_externals :: externals where
  "example_externals =
     \<lparr>sha256_hexdigest = (\<lambda>s. ''sha256:'' @ s),
      python_int = decimal,
      jws_parse = map_of example_tokens,
      jws_compact = (\<lambda>j. case List.find (\<lambda>(s, j'). j' = j) example_tokens of
                             Some (s, _) \<Rightarrow> s
                           | None \<Rightarrow> jws_alg j @ ''.'' @ render_claims (jws_payload j)
                                       @ ''.'' @ jws_sig j),
      hmac_sha256 = (\<lambda>key (alg, payload). ''hs256:'' @ key),
      verify_oauth2_token = (\<lambda>token client_id now. None),
      bcrypt_digest = (\<lambda>ident rounds salt secret.
         Inr (take 31 (filter (\<lambda>c. c \<in> set bcrypt64) (secret @ salt)
                         @ ''...............................'')))\<rparr>"

text \<open>
  \<open>admin@acme.com\<close> after a login: one OTP, valid until 1600. The same with that user's
  membership removed, and the same after the user has also joined Beta Company through
  an OAuth login.
\<close>

definition otp_db :: db where
  "otp_db =
     seed_db\<lparr>otp_codes :=
       [\<lparr>otp_id = 1, otp_user_id = 1, otp_code = ''123456'', otp_expires_at = 1600,
         otp_consumed = None\<rparr>]\<rparr>"

definition no_membership_db :: db where
  "no_membership_db =
     otp_db\<lparr>memberships := filter (\<lambda>m. mem_user_id m \<noteq> 1) (memberships otp_db)\<rparr>"

definition two_memberships_db :: db where
  "two_memberships_db =
     otp_db\<lparr>memberships := memberships otp_db @
       [\<lparr>mem_id = 5, mem_user_id = 1, mem_org_id = 2, mem_role = ''member''\<rparr>]\<rparr>"

text \<open>
  \<open>admin@acme.com\<close> holding the refresh token \<open>T1\<close> for Acme, valid until 605800; and
  the same after the membership the token is bound to has been removed.
\<close>

definition refresh_db :: db where
  "refresh_db =
     seed_db\<lparr>refresh_tokens :=
       [\<lparr>rt_id = 1, rt_user_id = 1, rt_org_id = 1, rt_token_hash = ''sha256:T1'',
         rt_expires_at = 605800, rt_revoked = False\<rparr>]\<rparr>"

definition orphan_refresh_db :: db where
  "orphan_refresh_db =
     refresh_db\<lparr>memberships := filter (\<lambda>m. mem_user_id m \<noteq> 1) (memberships refresh_db)\<rparr>"

section \<open>The rate limiter is a fixed-window counter\<close>

lemma check_closed:
  "redis_get r now key = None \<Longrightarrow>
   checkAndConsume r now key = (True, r(key \<mapsto> (1, Some (now + 300))))"
  by (simp add: checkAndConsume_def check_rate_limit_def redis_setex_def)

lemma check_open:
  "r key = Some (c, Some e) \<Longrightarrow> now < e \<Longrightarrow>
   checkAndConsume r now key = (c < 5, if c < 5 then r(key \<mapsto> (c + 1, Some e)) else r)"
  by (simp add: checkAndConsume_def check_rate_limit_def redis_get_def redis_live_def redis_incr_def)

lemma upt_Suc_shift: "[0..<Suc n] = 0 # map Suc [0..<n]"
  by (simp add: upt_conv_Cons map_Suc_upt del: upt_Suc)

lemma answers_Suc:
  "map (\<lambda>i. c + int i < 5) [0..<Suc n] = (c < 5) # map (\<lambda>i. (c + 1) + int i < 5) [0..<n]"
proof -
  have "map (\<lambda>i. c + int i < 5) [0..<Suc n] = (c < 5) # map ((\<lambda>i. c + int i < 5) \<circ> Suc) [0..<n]"
    unfolding upt_Suc_shift by simp
  also have "(\<lambda>i. c + int i < 5) \<circ> Suc = (\<lambda>i. (c + 1) + int i < 5)"
    by (rule ext) (simp add: add.commute add.left_commute)
  finally show ?thesis .
qed

lemma attempts_open:
  "r key = Some (c, Some e) \<Longrightarrow> \<forall>t\<in>set ts. t < e \<Longrightarrow>
   attempts r key ts =
     (map (\<lambda>i. c + int i < 5) [0..<length ts],
      r(key \<mapsto> (if c < 5 then min 5 (c + int (length ts)) else c, Some e)))"
proof (induction ts arbitrary: r c)
  case Nil
  then show ?case by (simp add: fun_upd_idem)
next
  case (Cons t ts)
  have t: "t < e" and ts: "\<forall>t\<in>set ts. t < e" using Cons.prems(2) by simp_all
  have len: "length (t # ts) = Suc (length ts)" by simp
  show ?case
  proof (cases "c < 5")
    case True
    let ?r = "r(key \<mapsto> (c + 1, Some e))"
    have step: "checkAndConsume r t key = (True, ?r)"
      using check_open [of r key c e t] Cons.prems(1) t True by simp
    have at: "?r key = Some (c + 1, Some e)" by simp
    have ih: "attempts ?r key ts =
       (map (\<lambda>i. c + 1 + int i < 5) [0..<length ts],
        ?r(key \<mapsto> (if c + 1 < 5 then min 5 (c + 1 + int (length ts)) else c + 1, Some e)))"
      by (rule Cons.IH [of ?r "c + 1", OF at ts])
    have v: "(if c + 1 < 5 then min 5 (c + 1 + int (length ts)) else c + 1) =
             min 5 (c + int (Suc (length ts)))"
      using True by (simp add: min_def)
    have A: "attempts r key (t # ts) =
       (True # map (\<lambda>i. c + 1 + int i < 5) [0..<length ts],
        r(key \<mapsto> (min 5 (c + int (Suc (length ts))), Some e)))"
      by (simp only: attempts.simps step prod.case ih v fun_upd_upd)
    have B: "map (\<lambda>i. c + int i < 5) [0..<length (t # ts)] =
             True # map (\<lambda>i. c + 1 + int i < 5) [0..<length ts]"
      using True by (simp only: len answers_Suc)
    have C: "(if c < 5 then min 5 (c + int (length (t # ts))) else c) =
             min 5 (c + int (Suc (length ts)))"
      using True by (simp only: len if_True)
    show ?thesis by (simp only: A B C)
  next
    case False
    have step: "checkAndConsume r t key = (False, r)"
      using check_open [of r key c e t] Cons.prems(1) t False by simp
    have ih: "attempts r key ts =
       (map (\<lambda>i. c + int i < 5) [0..<length ts], r(key \<mapsto> (c, Some e)))"
      using Cons.IH [of r c, OF Cons.prems(1) ts] False by (simp only: if_False)
    have f: "\<And>n. map (\<lambda>i. c + int i < 5) [0..<n] = replicate n False"
      using False by (simp add: map_replicate_const del: upt_Suc)
    have A: "attempts r key (t # ts) =
       (False # replicate (length ts) False, r(key \<mapsto> (c, Some e)))"
      by (simp only: attempts.simps step prod.case ih f)
    have B: "map (\<lambda>i. c + int i < 5) [0..<length (t # ts)] = False # replicate (length ts) False"
      by (simp only: f len replicate_Suc)
    have C: "(if c < 5 then min 5 (c + int (length (t # ts))) else c) = c"
      using False by (simp only: if_False)
    show ?thesis by (simp only: A B C)
  qed
qed


lemma check_rejected_unchanged:
  "fst (check_rate_limit s t key limit window) = False \<Longrightarrow>
   snd (check_rate_limit s t key limit window) = s"
  by (simp add: check_rate_limit_def split: option.splits if_splits)

text \<open>
  Claim C3. The limiter is a fixed-window counter. When no window is open for the key at
  \<open>t0\<close>, the call at \<open>t0\<close> is allowed and sets the counter to 1, expiring one window
  (300 seconds) later. Of the calls that follow before the window ends, the next four
  are allowed and every later one is rejected; the counter stops at 5 and the end of the
  window stays \<open>t0 + 300\<close>. A rejected call leaves the store as it was. Once the window
  has elapsed the next call is allowed and opens a new window with counter 1.
\<close>

theorem rate_limiter_fixed_window:
  assumes closed: "redis_get r t0 key = None"
      and inside: "\<forall>t\<in>set ts. t < t0 + 300"
  shows "checkAndConsume r t0 key = (True, r(key \<mapsto> (1, Some (t0 + 300))))
       \<and> fst (attempts r key (t0 # ts)) = map (\<lambda>i. i < 5) [0..<Suc (length ts)]
       \<and> snd (attempts r key (t0 # ts)) = r(key \<mapsto> (min 5 (1 + int (length ts)), Some (t0 + 300)))
       \<and> (\<forall>s t. fst (checkAndConsume s t key) = False \<longrightarrow> snd (checkAndConsume s t key) = s)
       \<and> (\<forall>t'. t0 + 300 \<le> t' \<longrightarrow>
             checkAndConsume (snd (attempts r key (t0 # ts))) t' key =
               (True, (snd (attempts r key (t0 # ts)))(key \<mapsto> (1, Some (t' + 300)))))"
proof -
  let ?r1 = "r(key \<mapsto> (1, Some (t0 + 300)))"
  have first: "checkAndConsume r t0 key = (True, ?r1)"
    by (rule check_closed [OF closed])
  have at: "?r1 key = Some (1, Some (t0 + 300))" by simp
  have rest: "attempts ?r1 key ts =
     (map (\<lambda>i. 1 + int i < 5) [0..<length ts],
      ?r1(key \<mapsto> (if (1::int) < 5 then min 5 (1 + int (length ts)) else 1, Some (t0 + 300))))"
    by (rule attempts_open [of ?r1 key 1 "t0 + 300" ts, OF at inside])
  have run: "attempts r key (t0 # ts) =
     (True # map (\<lambda>i. 1 + int i < 5) [0..<length ts],
      r(key \<mapsto> (min 5 (1 + int (length ts)), Some (t0 + 300))))"
    by (simp only: attempts.simps first prod.case rest fun_upd_upd) simp
  have answers: "True # map (\<lambda>i. 1 + int i < 5) [0..<length ts] =
                 map (\<lambda>i. i < 5) [0..<Suc (length ts)]"
    unfolding upt_Suc_shift by (simp add: comp_def) 
  have rejected: "\<forall>s t. fst (checkAndConsume s t key) = False \<longrightarrow> snd (checkAndConsume s t key) = s"
    unfolding checkAndConsume_def using check_rejected_unchanged by blast
  have reopened: "checkAndConsume (snd (attempts r key (t0 # ts))) t' key =
               (True, (snd (attempts r key (t0 # ts)))(key \<mapsto> (1, Some (t' + 300))))"
    if "t0 + 300 \<le> t'" for t'
  proof (rule check_closed)
    show "redis_get (snd (attempts r key (t0 # ts))) t' key = None"
      unfolding run using that by (simp add: redis_get_def redis_live_def)
  qed
  show ?thesis
    using first run answers rejected reopened by (simp only: fst_conv snd_conv) simp
qed

theorem rate_limiter_fixed_window_witness:
  "redis_get Map.empty 1000 ''login_attempts:a@x.com'' = None
   \<and> list_all (\<lambda>t. t < (1000::int) + 300) [1001, 1100, 1200, 1299, 1299, 1299]
   \<and> fst (attempts Map.empty ''login_attempts:a@x.com'' [1000, 1001, 1100, 1200, 1299, 1299, 1299])
       = [True, True, True, True, True, False, False]
   \<and> snd (attempts Map.empty ''login_attempts:a@x.com'' [1000, 1001, 1100, 1200, 1299, 1299, 1299])
         ''login_attempts:a@x.com'' = Some (5, Some 1300)
   \<and> fst (checkAndConsume
        (snd (attempts Map.empty ''login_attempts:a@x.com'' [1000, 1001, 1100, 1200, 1299, 1299, 1299]))
        1300 ''login_attempts:a@x.com'') = True"
proof -
  have h1: "redis_get Map.empty 1000 ''login_attempts:a@x.com'' = None"
    by (simp add: redis_get_def redis_live_def)
  have h2: "\<forall>t\<in>set [1001, 1100, 1200, 1299, 1299, 1299]. t < (1000::int) + 300"
    by simp
  have up: "[0..<7] = [0, 1, 2, 3, 4, 5, 6::nat]"
    by (simp add: upt_rec)
  note run = rate_limiter_fixed_window [OF h1 h2]
  from run have answers:
    "fst (attempts Map.empty ''login_attempts:a@x.com'' [1000, 1001, 1100, 1200, 1299, 1299, 1299])
       = map (\<lambda>i. i < 5) [0..<Suc (length [1001, 1100, 1200, 1299, 1299, 1299 :: int])]"
    by (rule conjunct1 [OF conjunct2])
  from run have store:
    "snd (attempts Map.empty ''login_attempts:a@x.com'' [1000, 1001, 1100, 1200, 1299, 1299, 1299])
       = Map.empty(''login_attempts:a@x.com'' \<mapsto>
           (min 5 (1 + int (length [1001, 1100, 1200, 1299, 1299, 1299 :: int])), Some (1000 + 300)))"
    by (rule conjunct1 [OF conjunct2 [OF conjunct2]])
  from run have reopened:
    "(1000::int) + 300 \<le> 1300 \<longrightarrow>
     checkAndConsume
       (snd (attempts Map.empty ''login_attempts:a@x.com'' [1000, 1001, 1100, 1200, 1299, 1299, 1299]))
       1300 ''login_attempts:a@x.com'' =
     (True, (snd (attempts Map.empty ''login_attempts:a@x.com''
                    [1000, 1001, 1100, 1200, 1299, 1299, 1299]))
              (''login_attempts:a@x.com'' \<mapsto> (1, Some (1300 + 300))))"
    by blast
  show ?thesis
    using h1 h2 answers reopened by (simp add: up store del: attempts.simps)
qed

section \<open>Queries under the unique constraints, and token issuance\<close>

lemma filter_distinct_key:
  "distinct (map f xs) \<Longrightarrow> filter (\<lambda>x. f x = k) xs = [] \<or> (\<exists>x. filter (\<lambda>x. f x = k) xs = [x])"
proof (induction xs)
  case Nil
  then show ?case by simp
next
  case (Cons a xs)
  show ?case
  proof (cases "f a = k")
    case True
    have "filter (\<lambda>x. f x = k) xs = []"
    proof (rule ccontr)
      assume "filter (\<lambda>x. f x = k) xs \<noteq> []"
      then obtain y where "y \<in> set xs" "f y = k"
        by (metis (mono_tags, lifting) filter_False)
      with True Cons.prems show False by (auto simp: image_iff)
    qed
    with True show ?thesis by simp
  next
    case False
    with Cons show ?thesis by simp
  qed
qed

lemma scalar_one_or_none_unique:
  assumes "distinct (map f xs)"
  shows "scalar_one_or_none (filter (\<lambda>x. f x = k) xs) =
           Inr (List.find (\<lambda>x. f x = k) xs)"
proof -
  from filter_distinct_key [OF assms, of k]
  show ?thesis
  proof
    assume e: "filter (\<lambda>x. f x = k) xs = []"
    then have "List.find (\<lambda>x. f x = k) xs = None"
      by (simp add: find_None_iff filter_empty_conv)
    with e show ?thesis by simp
  next
    assume "\<exists>x. filter (\<lambda>x. f x = k) xs = [x]"
    then obtain x where x: "filter (\<lambda>x. f x = k) xs = [x]" ..
    have "List.find (\<lambda>x. f x = k) xs = Some x"
      using x by (induction xs) (auto split: if_splits)
    with x show ?thesis by simp
  qed
qed

lemma generate_tokens_fresh:
  assumes "hash_token L rnd \<notin> set (map rt_token_hash (refresh_tokens pending))"
  shows "generate_tokens L cfg now rnd uid oid role committed pending =
     (Inr \<lparr>access_token = create_access_token L cfg now
                [(''user_id'', JInt uid), (''org_id'', JInt oid), (''role'', JStr role)],
           resp_refresh_token = rnd, token_type = ''bearer'',
           expires_in = ACCESS_TTL_MIN cfg * 60\<rparr>,
      pending\<lparr>refresh_tokens := refresh_tokens pending @
         [\<lparr>rt_id = next_id (map rt_id (refresh_tokens pending)), rt_user_id = uid,
           rt_org_id = oid, rt_token_hash = hash_token L rnd,
           rt_expires_at = now + timedelta_days (REFRESH_TTL_DAYS cfg), rt_revoked = False\<rparr>]\<rparr>)"
  using assms by (simp add: generate_tokens_def add_refresh_token_def Let_def)

lemma generate_tokens_collision:
  assumes "hash_token L rnd \<in> set (map rt_token_hash (refresh_tokens pending))"
  shows "generate_tokens L cfg now rnd uid oid role committed pending = (Inl IntegrityError, committed)"
  using assms by (simp add: generate_tokens_def add_refresh_token_def Let_def)

lemma membership_filter_pair:
  "filter (\<lambda>m. mem_user_id m = u \<and> mem_org_id m = g) ms =
   filter (\<lambda>m. (mem_user_id m, mem_org_id m) = (u, g)) ms"
  by simp

lemma scalar_membership_unique:
  assumes "distinct (map (\<lambda>m. (mem_user_id m, mem_org_id m)) ms)"
  shows "scalar_one_or_none (filter (\<lambda>m. mem_user_id m = u \<and> mem_org_id m = g) ms) =
     Inr (List.find (\<lambda>m. (mem_user_id m, mem_org_id m) = (u, g)) ms)"
  unfolding membership_filter_pair
  by (rule scalar_one_or_none_unique [OF assms])

lemma mock_verify:
  assumes "GOOGLE_CLIENT_ID cfg = None \<or> GOOGLE_CLIENT_ID cfg = Some []"
  shows "verify_google_token L cfg now token =
           (if token = ''MOCK_ID_TOKEN'' then Some mock_user_info else None)"
  using assms by (auto simp: verify_google_token_def Let_def)

lemma find_SomeD: "List.find P xs = Some x \<Longrightarrow> x \<in> set xs \<and> P x"
  by (auto simp: find_Some_iff)

lemma google_login_mock_result:
  assumes mock: "GOOGLE_CLIENT_ID cfg = None \<or> GOOGLE_CLIENT_ID cfg = Some []"
      and wf: "wf_db d"
      and org: "resolve_organization L cfg now req d = Inr (Some org)"
      and fresh: "hash_token L rnd \<notin> set (map rt_token_hash (refresh_tokens d))"
  shows "\<exists>u m. google_login L cfg now rnd \<lparr>id_token = ''MOCK_ID_TOKEN''\<rparr> req d =
           (Inr \<lparr>access_token = create_access_token L cfg now
                   [(''user_id'', JInt (user_id u)), (''org_id'', JInt (org_id org)),
                    (''role'', JStr (mem_role m))],
                 resp_refresh_token = rnd, token_type = ''bearer'',
                 expires_in = ACCESS_TTL_MIN cfg * 60\<rparr>,
            d\<lparr>users := (if u \<in> set (users d) then users d else users d @ [u]),
              memberships := (if m \<in> set (memberships d) then memberships d
                              else memberships d @ [m]),
              refresh_tokens := refresh_tokens d @
                [\<lparr>rt_id = next_id (map rt_id (refresh_tokens d)), rt_user_id = user_id u,
                  rt_org_id = org_id org, rt_token_hash = hash_token L rnd,
                  rt_expires_at = now + timedelta_days (REFRESH_TTL_DAYS cfg),
                  rt_revoked = False\<rparr>]\<rparr>)
         \<and> user_email u = ''test@example.com''
         \<and> mem_user_id m = user_id u \<and> mem_org_id m = org_id org
         \<and> (u \<in> set (users d) \<or>
              u = \<lparr>user_id = next_id (map user_id (users d)), user_email = ''test@example.com'',
                   user_password_hash = None\<rparr>)
         \<and> (m \<in> set (memberships d) \<or>
              m = \<lparr>mem_id = next_id (map mem_id (memberships d)), mem_user_id = user_id u,
                   mem_org_id = org_id org, mem_role = ''member''\<rparr>)"
proof -
  have users: "scalar_one_or_none (filter (\<lambda>u. user_email u = ''test@example.com'') (users d)) =
      Inr (List.find (\<lambda>u. user_email u = ''test@example.com'') (users d))"
    using wf by (intro scalar_one_or_none_unique) (simp add: wf_db_def)
  have mems: "\<And>u. scalar_one_or_none
        (filter (\<lambda>m. mem_user_id m = u \<and> mem_org_id m = org_id org) (memberships d)) =
      Inr (List.find (\<lambda>m. (mem_user_id m, mem_org_id m) = (u, org_id org)) (memberships d))"
    using wf by (intro scalar_membership_unique) (simp add: wf_db_def)
  have email: "map_of mock_user_info ''email'' = Some ''test@example.com''"
    by (simp add: mock_user_info_def)
  have nonempty: "mock_user_info \<noteq> []" by (simp add: mock_user_info_def)
  have vg: "verify_google_token L cfg now ''MOCK_ID_TOKEN'' = Some mock_user_info"
    using mock_verify [OF mock] by simp
  define u where "u = (case List.find (\<lambda>u. user_email u = ''test@example.com'') (users d) of
      Some user \<Rightarrow> user
    | None \<Rightarrow> \<lparr>user_id = next_id (map user_id (users d)), user_email = ''test@example.com'',
               user_password_hash = None\<rparr>)"
  define m where "m = (case List.find (\<lambda>m. (mem_user_id m, mem_org_id m) = (user_id u, org_id org))
                               (memberships d) of
      Some membership \<Rightarrow> membership
    | None \<Rightarrow> \<lparr>mem_id = next_id (map mem_id (memberships d)), mem_user_id = user_id u,
               mem_org_id = org_id org, mem_role = ''member''\<rparr>)"
  have u_email: "user_email u = ''test@example.com''"
    unfolding u_def by (auto split: option.splits dest: find_SomeD)
  have u_in: "u \<in> set (users d) \<longleftrightarrow>
              List.find (\<lambda>u. user_email u = ''test@example.com'') (users d) \<noteq> None"
  proof (cases "List.find (\<lambda>u. user_email u = ''test@example.com'') (users d)")
    case None
    then have "\<forall>x\<in>set (users d). user_email x \<noteq> ''test@example.com''"
      by (simp add: find_None_iff)
    with u_email have "u \<notin> set (users d)" by auto
    with None show ?thesis by simp
  next
    case (Some user)
    then show ?thesis by (auto simp: u_def dest: find_SomeD)
  qed
  have m_ids: "mem_user_id m = user_id u \<and> mem_org_id m = org_id org"
    unfolding m_def by (auto split: option.splits dest: find_SomeD)
  have m_in: "m \<in> set (memberships d) \<longleftrightarrow>
              List.find (\<lambda>m. (mem_user_id m, mem_org_id m) = (user_id u, org_id org))
                        (memberships d) \<noteq> None"
  proof (cases "List.find (\<lambda>m. (mem_user_id m, mem_org_id m) = (user_id u, org_id org))
                          (memberships d)")
    case None
    then have "\<forall>x\<in>set (memberships d). (mem_user_id x, mem_org_id x) \<noteq> (user_id u, org_id org)"
      by (simp add: find_None_iff)
    with m_ids have "m \<notin> set (memberships d)" by auto
    with None show ?thesis by simp
  next
    case (Some membership)
    then show ?thesis by (auto simp: m_def dest: find_SomeD)
  qed
  have u_alt: "u \<in> set (users d) \<or>
              u = \<lparr>user_id = next_id (map user_id (users d)), user_email = ''test@example.com'',
                   user_password_hash = None\<rparr>"
    unfolding u_def by (auto split: option.splits dest: find_SomeD)
  have m_alt: "m \<in> set (memberships d) \<or>
              m = \<lparr>mem_id = next_id (map mem_id (memberships d)), mem_user_id = user_id u,
                   mem_org_id = org_id org, mem_role = ''member''\<rparr>"
    unfolding m_def by (auto split: option.splits dest: find_SomeD)
  have step_user:
    "(case List.find (\<lambda>u. user_email u = ''test@example.com'') (users d) of
        Some user \<Rightarrow> Inr (user, d)
      | None \<Rightarrow> add_user d ''test@example.com'' None) =
     Inr (u, d\<lparr>users := (if u \<in> set (users d) then users d else users d @ [u])\<rparr>)"
  proof (cases "List.find (\<lambda>u. user_email u = ''test@example.com'') (users d)")
    case None
    then have "''test@example.com'' \<notin> set (map user_email (users d))"
      by (auto simp: find_None_iff)
    then show ?thesis using None u_in by (simp add: add_user_def Let_def u_def)
  next
    case (Some user)
    then show ?thesis using u_in by (simp add: u_def)
  qed
  let ?d1 = "d\<lparr>users := (if u \<in> set (users d) then users d else users d @ [u])\<rparr>"
  have step_mem:
    "(case List.find (\<lambda>m. (mem_user_id m, mem_org_id m) = (user_id u, org_id org)) (memberships d) of
        Some membership \<Rightarrow> Inr (membership, ?d1)
      | None \<Rightarrow> add_membership ?d1 (user_id u) (org_id org) ''member'') =
     Inr (m, ?d1\<lparr>memberships := (if m \<in> set (memberships d) then memberships d
                                   else memberships d @ [m])\<rparr>)"
  proof (cases "List.find (\<lambda>m. (mem_user_id m, mem_org_id m) = (user_id u, org_id org)) (memberships d)")
    case None
    then have "(user_id u, org_id org) \<notin> set (map (\<lambda>m. (mem_user_id m, mem_org_id m)) (memberships d))"
      by (auto simp: find_None_iff)
    then show ?thesis using None m_in by (simp add: add_membership_def Let_def m_def)
  next
    case (Some membership)
    then show ?thesis using m_in by (simp add: m_def)
  qed
  let ?d2 = "?d1\<lparr>memberships := (if m \<in> set (memberships d) then memberships d
                                   else memberships d @ [m])\<rparr>"
  have f2: "hash_token L rnd \<notin> set (map rt_token_hash (refresh_tokens ?d2))"
    using fresh by simp
  have sel: "id_token \<lparr>id_token = ''MOCK_ID_TOKEN''\<rparr> = ''MOCK_ID_TOKEN''" by simp
  have mems1: "scalar_one_or_none
        (filter (\<lambda>m. mem_user_id m = user_id u \<and> mem_org_id m = org_id org) (memberships ?d1)) =
      Inr (List.find (\<lambda>m. (mem_user_id m, mem_org_id m) = (user_id u, org_id org)) (memberships d))"
    using mems [of "user_id u"] by simp
  have run: "google_login L cfg now rnd \<lparr>id_token = ''MOCK_ID_TOKEN''\<rparr> req d =
      generate_tokens L cfg now rnd (user_id u) (org_id org) (mem_role m) ?d2 ?d2"
    unfolding google_login_def
    by (simp only: sel vg option.case nonempty if_False org sum.case email users step_user
          prod.case mems1 step_mem)
  show ?thesis
    apply (rule exI [of _ u], rule exI [of _ m])
    apply (intro conjI)
        apply (simp add: run generate_tokens_fresh [OF f2])
       apply (rule u_email)
      apply (rule m_ids [THEN conjunct1])
     apply (rule m_ids [THEN conjunct2])
     apply (rule u_alt)
    apply (rule m_alt)
    done
qed

section \<open>Password verification on a malformed hash\<close>

text \<open>
  Claim C7 says that \<open>verify_password\<close> returns \<open>False\<close> on a malformed hash and never
  raises. The code hands the hash to passlib without a handler: on the text
  \<open>not-a-hash\<close>, which no configured scheme identifies, the call ends with passlib's
  \<open>UnknownHashError\<close> for every plaintext, whatever the bcrypt handler does.
\<close>

theorem verify_password_raises_on_malformed_hash:
  "verify_password L plain_password ''not-a-hash'' = Inl UnknownHashError"
  by (simp add: verify_password_def pwd_context_verify_def bcrypt_identify_def bcrypt_idents_def)

section \<open>OAuth login in mock mode\<close>

text \<open>
  Claim C10. When no Google client id is configured (\<open>GOOGLE_CLIENT_ID\<close> unset or
  empty), \<open>verify_google_token\<close> accepts exactly the text \<open>MOCK_ID_TOKEN\<close>, for which it
  returns the fixed identity with email \<open>test@example.com\<close>, and rejects every other
  token, on which \<open>google_login\<close> answers 401. With that token \<open>google_login\<close> succeeds
  against any organization \<open>org\<close> the request resolves to, in a database that satisfies
  its unique constraints, when the refresh token drawn is not one already stored: the
  user \<open>u\<close> with email \<open>test@example.com\<close> is the stored one or is created without a
  password, the membership \<open>m\<close> of \<open>u\<close> in \<open>org\<close> is the stored one or is created with
  role \<open>member\<close>, the response carries the access token for \<open>(u, org, role of m)\<close> and
  the refresh token drawn, and the database gains the new rows and the row of the
  refresh token, bound to \<open>u\<close> and \<open>org\<close>, and nothing else.
\<close>

theorem mock_google_login:
  assumes mock: "GOOGLE_CLIENT_ID cfg = None \<or> GOOGLE_CLIENT_ID cfg = Some []"
  shows "verify_google_token L cfg now token =
           (if token = ''MOCK_ID_TOKEN'' then Some mock_user_info else None)
       \<and> map_of mock_user_info ''email'' = Some ''test@example.com''
       \<and> (token \<noteq> ''MOCK_ID_TOKEN'' \<longrightarrow>
            google_login L cfg now rnd \<lparr>id_token = token\<rparr> req d =
              (Inl (HTTPException 401 ''Invalid Google token''), d))
       \<and> (wf_db d \<and> resolve_organization L cfg now req d = Inr (Some org)
            \<and> hash_token L rnd \<notin> set (map rt_token_hash (refresh_tokens d)) \<longrightarrow>
            (\<exists>u m. google_login L cfg now rnd \<lparr>id_token = ''MOCK_ID_TOKEN''\<rparr> req d =
               (Inr \<lparr>access_token = create_access_token L cfg now
                       [(''user_id'', JInt (user_id u)), (''org_id'', JInt (org_id org)),
                        (''role'', JStr (mem_role m))],
                     resp_refresh_token = rnd, token_type = ''bearer'',
                     expires_in = ACCESS_TTL_MIN cfg * 60\<rparr>,
                d\<lparr>users := (if u \<in> set (users d) then users d else users d @ [u]),
                  memberships := (if m \<in> set (memberships d) then memberships d
                                  else memberships d @ [m]),
                  refresh_tokens := refresh_tokens d @
                    [\<lparr>rt_id = next_id (map rt_id (refresh_tokens d)), rt_user_id = user_id u,
                      rt_org_id = org_id org, rt_token_hash = hash_token L rnd,
                      rt_expires_at = now + timedelta_days (REFRESH_TTL_DAYS cfg),
                      rt_revoked = False\<rparr>]\<rparr>)
             \<and> user_email u = ''test@example.com''
             \<and> mem_user_id m = user_id u \<and> mem_org_id m = org_id org
             \<and> (u \<in> set (users d) \<or>
                  u = \<lparr>user_id = next_id (map user_id (users d)),
                       user_email = ''test@example.com'', user_password_hash = None\<rparr>)
             \<and> (m \<in> set (memberships d) \<or>
                  m = \<lparr>mem_id = next_id (map mem_id (memberships d)), mem_user_id = user_id u,
                       mem_org_id = org_id org, mem_role = ''member''\<rparr>)))"
proof (intro conjI impI)
  show v: "verify_google_token L cfg now token =
           (if token = ''MOCK_ID_TOKEN'' then Some mock_user_info else None)"
    by (rule mock_verify [OF mock])
  show "map_of mock_user_info ''email'' = Some ''test@example.com''"
    by (simp add: mock_user_info_def)
  show "google_login L cfg now rnd \<lparr>id_token = token\<rparr> req d =
              (Inl (HTTPException 401 ''Invalid Google token''), d)"
    if "token \<noteq> ''MOCK_ID_TOKEN''"
    using that by (simp add: google_login_def v)
next
  assume h: "wf_db d \<and> resolve_organization L cfg now req d = Inr (Some org)
            \<and> hash_token L rnd \<notin> set (map rt_token_hash (refresh_tokens d))"
  then have wf: "wf_db d" and org: "resolve_organization L cfg now req d = Inr (Some org)"
    and fresh: "hash_token L rnd \<notin> set (map rt_token_hash (refresh_tokens d))"
    by blast+
  show "\<exists>u m. google_login L cfg now rnd \<lparr>id_token = ''MOCK_ID_TOKEN''\<rparr> req d =
               (Inr \<lparr>access_token = create_access_token L cfg now
                       [(''user_id'', JInt (user_id u)), (''org_id'', JInt (org_id org)),
                        (''role'', JStr (mem_role m))],
                     resp_refresh_token = rnd, token_type = ''bearer'',
                     expires_in = ACCESS_TTL_MIN cfg * 60\<rparr>,
                d\<lparr>users := (if u \<in> set (users d) then users d else users d @ [u]),
                  memberships := (if m \<in> set (memberships d) then memberships d
                                  else memberships d @ [m]),
                  refresh_tokens := refresh_tokens d @
                    [\<lparr>rt_id = next_id (map rt_id (refresh_tokens d)), rt_user_id = user_id u,
                      rt_org_id = org_id org, rt_token_hash = hash_token L rnd,
                      rt_expires_at = now + timedelta_days (REFRESH_TTL_DAYS cfg),
                      rt_revoked = False\<rparr>]\<rparr>)
             \<and> user_email u = ''test@example.com''
             \<and> mem_user_id m = user_id u \<and> mem_org_id m = org_id org
             \<and> (u \<in> set (users d) \<or>
                  u = \<lparr>user_id = next_id (map user_id (users d)),
                       user_email = ''test@example.com'', user_password_hash = None\<rparr>)
             \<and> (m \<in> set (memberships d) \<or>
                  m = \<lparr>mem_id = next_id (map mem_id (memberships d)), mem_user_id = user_id u,
                       mem_org_id = org_id org, mem_role = ''member''\<rparr>)"
    by (rule google_login_mock_result [OF mock wf org fresh])
qed

theorem mock_google_login_witness:
  "GOOGLE_CLIENT_ID default_settings = None
   \<and> wf_db seed_db
   \<and> resolve_organization example_externals default_settings 1000
         \<lparr>headers = [(''host'', ''acme.example.local'')]\<rparr> seed_db
       = Inr (Some \<lparr>org_id = 1, org_name = ''Acme Corporation'', org_subdomain = ''acme''\<rparr>)
   \<and> verify_google_token example_externals default_settings 1000 ''MOCK_ID_TOKEN'' = Some mock_user_info
   \<and> verify_google_token example_externals default_settings 1000 ''mock_id_token'' = None
   \<and> google_login example_externals default_settings 1000 ''r1'' \<lparr>id_token = ''mock_id_token''\<rparr>
        \<lparr>headers = [(''host'', ''acme.example.local'')]\<rparr> seed_db
       = (Inl (HTTPException 401 ''Invalid Google token''), seed_db)
   \<and> google_login example_externals default_settings 1000 ''r1''
        \<lparr>id_token = ''MOCK_ID_TOKEN''\<rparr> \<lparr>headers = [(''host'', ''acme.example.local'')]\<rparr> seed_db
       = (Inr \<lparr>access_token =
                 ''HS256.user_id=5;org_id=1;role=member;exp=1900;iss=taskmanager;.hs256:dev-secret-key'',
               resp_refresh_token = ''r1'', token_type = ''bearer'', expires_in = 900\<rparr>,
          seed_db\<lparr>users := users seed_db @
                     [\<lparr>user_id = 5, user_email = ''test@example.com'', user_password_hash = None\<rparr>],
                   memberships := memberships seed_db @
                     [\<lparr>mem_id = 5, mem_user_id = 5, mem_org_id = 1, mem_role = ''member''\<rparr>],
                   refresh_tokens :=
                     [\<lparr>rt_id = 1, rt_user_id = 5, rt_org_id = 1, rt_token_hash = ''sha256:r1'',
                       rt_expires_at = 605800, rt_revoked = False\<rparr>]\<rparr>)"
proof -
  let ?org = "\<lparr>org_id = 1, org_name = ''Acme Corporation'', org_subdomain = ''acme''\<rparr>"
  let ?req = "\<lparr>headers = [(''host'', ''acme.example.local'')]\<rparr>"
  let ?U = "\<lparr>user_id = 5, user_email = ''test@example.com'', user_password_hash = None\<rparr>"
  let ?M = "\<lparr>mem_id = 5, mem_user_id = 5, mem_org_id = 1, mem_role = ''member''\<rparr>"
  have h0: "GOOGLE_CLIENT_ID default_settings = None" by (simp add: default_settings_def)
  then have h1: "GOOGLE_CLIENT_ID default_settings = None \<or> GOOGLE_CLIENT_ID default_settings = Some []"
    by simp
  have h2: "wf_db seed_db" by (simp add: wf_db_def seed_db_def)
  have h3: "resolve_organization example_externals default_settings 1000 ?req seed_db = Inr (Some ?org)"
    by (simp add: resolve_organization_def seed_db_def)
  have h4: "hash_token example_externals ''r1'' \<notin> set (map rt_token_hash (refresh_tokens seed_db))"
    by (simp add: seed_db_def)
  note T = mock_google_login [OF h1, of example_externals 1000 _ "''r1''" ?req seed_db ?org]
  have c1: "verify_google_token example_externals default_settings 1000 ''MOCK_ID_TOKEN'' = Some mock_user_info"
    using T [of "''MOCK_ID_TOKEN''"] by simp
  have c2: "verify_google_token example_externals default_settings 1000 ''mock_id_token'' = None"
    using T [of "''mock_id_token''"] by simp
  have c3: "google_login example_externals default_settings 1000 ''r1'' \<lparr>id_token = ''mock_id_token''\<rparr>
        ?req seed_db = (Inl (HTTPException 401 ''Invalid Google token''), seed_db)"
    using T [of "''mock_id_token''"] by simp
  from T [of "''MOCK_ID_TOKEN''"] h2 h3 h4 obtain u m where
    run: "google_login example_externals default_settings 1000 ''r1'' \<lparr>id_token = ''MOCK_ID_TOKEN''\<rparr>
            ?req seed_db =
          (Inr \<lparr>access_token = create_access_token example_externals default_settings 1000
                   [(''user_id'', JInt (user_id u)), (''org_id'', JInt (org_id ?org)),
                    (''role'', JStr (mem_role m))],
                 resp_refresh_token = ''r1'', token_type = ''bearer'',
                 expires_in = ACCESS_TTL_MIN default_settings * 60\<rparr>,
           seed_db\<lparr>users := (if u \<in> set (users seed_db) then users seed_db else users seed_db @ [u]),
              memberships := (if m \<in> set (memberships seed_db) then memberships seed_db
                              else memberships seed_db @ [m]),
              refresh_tokens := refresh_tokens seed_db @
                [\<lparr>rt_id = next_id (map rt_id (refresh_tokens seed_db)), rt_user_id = user_id u,
                  rt_org_id = org_id ?org, rt_token_hash = hash_token example_externals ''r1'',
                  rt_expires_at = 1000 + timedelta_days (REFRESH_TTL_DAYS default_settings),
                  rt_revoked = False\<rparr>]\<rparr>)"
    and ue: "user_email u = ''test@example.com''"
    and mu: "mem_user_id m = user_id u" "mem_org_id m = org_id ?org"
    and ua: "u \<in> set (users seed_db) \<or>
             u = \<lparr>user_id = next_id (map user_id (users seed_db)),
                  user_email = ''test@example.com'', user_password_hash = None\<rparr>"
    and ma: "m \<in> set (memberships seed_db) \<or>
             m = \<lparr>mem_id = next_id (map mem_id (memberships seed_db)), mem_user_id = user_id u,
                  mem_org_id = org_id ?org, mem_role = ''member''\<rparr>"
    by blast
  have un: "u \<notin> set (users seed_db)" using ue by (auto simp: seed_db_def)
  with ua have u: "u = ?U" by (simp add: seed_db_def next_id_def)
  have mn: "m \<notin> set (memberships seed_db)" using mu u by (auto simp: seed_db_def)
  with ma have m: "m = ?M" by (simp add: seed_db_def next_id_def u)
  have un': "?U \<notin> set (users seed_db)" using un u by simp
  have mn': "?M \<notin> set (memberships seed_db)" using mn m by simp
  have tok: "create_access_token example_externals default_settings 1000
         [(''user_id'', JInt 5), (''org_id'', JInt 1), (''role'', JStr ''member'')]
       = ''HS256.user_id=5;org_id=1;role=member;exp=1900;iss=taskmanager;.hs256:dev-secret-key''"
    by (simp add: create_access_token_def jwt_encode_def example_externals_def example_tokens_def
        default_settings_def timedelta_minutes_def render_claims_def render_jval_def Let_def)
  have rt: "refresh_tokens seed_db = []" by (simp add: seed_db_def)
  have hs: "hash_token example_externals ''r1'' = ''sha256:r1''"
    by (simp add: hash_token_def example_externals_def)
  have ttl: "ACCESS_TTL_MIN default_settings = 15" "REFRESH_TTL_DAYS default_settings = 7"
    by (simp_all add: default_settings_def)
  have c4: "google_login example_externals default_settings 1000 ''r1''
        \<lparr>id_token = ''MOCK_ID_TOKEN''\<rparr> ?req seed_db
       = (Inr \<lparr>access_token =
                 ''HS256.user_id=5;org_id=1;role=member;exp=1900;iss=taskmanager;.hs256:dev-secret-key'',
               resp_refresh_token = ''r1'', token_type = ''bearer'', expires_in = 900\<rparr>,
          seed_db\<lparr>users := users seed_db @ [?U],
                   memberships := memberships seed_db @ [?M],
                   refresh_tokens :=
                     [\<lparr>rt_id = 1, rt_user_id = 5, rt_org_id = 1, rt_token_hash = ''sha256:r1'',
                       rt_expires_at = 605800, rt_revoked = False\<rparr>]\<rparr>)"
    unfolding run u m
    by (simp add: un' mn' tok rt next_id_def hs ttl timedelta_days_def)
  show ?thesis
    by (rule conjI [OF h0 conjI [OF h2 conjI [OF h3 conjI [OF c1 conjI [OF c2 conjI [OF c3 c4]]]]]])
qed

section \<open>Registration conflicts\<close>

lemma find_Some_mem: "x \<in> set xs \<Longrightarrow> P x \<Longrightarrow> \<exists>y. List.find P xs = Some y"
  by (cases "List.find P xs") (auto simp: find_None_iff)

lemma generate_tokens_no_http:
  "generate_tokens L cfg now rnd uid oid role committed pending \<noteq> (Inl (HTTPException s detail), d')"
  by (simp add: generate_tokens_def add_refresh_token_def Let_def)

text \<open>
  Claim C6. Registration is conflict-checked and atomic. In a database that satisfies
  its unique constraints, \<open>register\<close> answers 400 "Subdomain already exists" when the
  subdomain is taken and 400 "Email already registered" when the subdomain is free and
  the email is taken, and the database is unchanged in both cases. Whenever
  \<open>register\<close> ends with an \<open>HTTPException\<close> at all, nothing has been committed: no
  organization, user or membership row is left behind.
\<close>

theorem register_conflict_atomic:
  assumes wf: "wf_db d"
  shows "((\<exists>org\<in>set (organizations d). org_subdomain org = reg_subdomain request) \<longrightarrow>
            register L cfg now salt rnd request d =
              (Inl (HTTPException 400 ''Subdomain already exists''), d))
       \<and> ((\<forall>org\<in>set (organizations d). org_subdomain org \<noteq> reg_subdomain request) \<and>
          (\<exists>u\<in>set (users d). user_email u = reg_email request) \<longrightarrow>
            register L cfg now salt rnd request d =
              (Inl (HTTPException 400 ''Email already registered''), d))
       \<and> (\<forall>s detail d'. register L cfg now salt rnd request d = (Inl (HTTPException s detail), d')
            \<longrightarrow> d' = d)"
proof -
  have orgs: "scalar_one_or_none
        (filter (\<lambda>org. org_subdomain org = reg_subdomain request) (organizations d)) =
      Inr (List.find (\<lambda>org. org_subdomain org = reg_subdomain request) (organizations d))"
    using wf by (intro scalar_one_or_none_unique) (simp add: wf_db_def)
  have usrs: "scalar_one_or_none (filter (\<lambda>u. user_email u = reg_email request) (users d)) =
      Inr (List.find (\<lambda>u. user_email u = reg_email request) (users d))"
    using wf by (intro scalar_one_or_none_unique) (simp add: wf_db_def)
  have a: "register L cfg now salt rnd request d =
              (Inl (HTTPException 400 ''Subdomain already exists''), d)"
    if "\<exists>org\<in>set (organizations d). org_subdomain org = reg_subdomain request"
  proof -
    from that obtain org where "org \<in> set (organizations d)"
      "org_subdomain org = reg_subdomain request" by blast
    from find_Some_mem [of org "organizations d" "\<lambda>org. org_subdomain org = reg_subdomain request", OF this]
    obtain y where
      "List.find (\<lambda>org. org_subdomain org = reg_subdomain request) (organizations d) = Some y"
      by blast
    then show ?thesis by (simp add: register_def orgs)
  qed
  have b: "register L cfg now salt rnd request d =
              (Inl (HTTPException 400 ''Email already registered''), d)"
    if free: "\<forall>org\<in>set (organizations d). org_subdomain org \<noteq> reg_subdomain request"
      and taken: "\<exists>u\<in>set (users d). user_email u = reg_email request"
  proof -
    from free have n:
      "List.find (\<lambda>org. org_subdomain org = reg_subdomain request) (organizations d) = None"
      by (simp add: find_None_iff)
    from taken obtain u where "u \<in> set (users d)" "user_email u = reg_email request" by blast
    from find_Some_mem [of u "users d" "\<lambda>u. user_email u = reg_email request", OF this]
    obtain y where
      "List.find (\<lambda>u. user_email u = reg_email request) (users d) = Some y"
      by blast
    then show ?thesis by (simp add: register_def orgs usrs n)
  qed
  have c: "d' = d"
    if "register L cfg now salt rnd request d = (Inl (HTTPException s detail), d')"
    for s detail d'
    using that generate_tokens_no_http [of L cfg now rnd _ _ "''admin''" _ _ s detail d']
    by (auto simp: register_def orgs usrs split: option.splits sum.splits prod.splits)
  from a b c show ?thesis by blast
qed


theorem register_conflict_atomic_witness:
  "wf_db seed_db
   \<and> register example_externals default_settings 1000 ''salt'' ''r1''
        \<lparr>reg_organization_name = ''Acme Two'', reg_subdomain = ''acme'',
         reg_email = ''founder@acme2.com'', reg_password = ''pw''\<rparr> seed_db
       = (Inl (HTTPException 400 ''Subdomain already exists''), seed_db)
   \<and> register example_externals default_settings 1000 ''salt'' ''r1''
        \<lparr>reg_organization_name = ''Gamma'', reg_subdomain = ''gamma'',
         reg_email = ''admin@acme.com'', reg_password = ''pw''\<rparr> seed_db
       = (Inl (HTTPException 400 ''Email already registered''), seed_db)"
proof -
  have wf: "wf_db seed_db" by (simp add: wf_db_def seed_db_def)
  have taken: "\<exists>org\<in>set (organizations seed_db).
      org_subdomain org = reg_subdomain \<lparr>reg_organization_name = ''Acme Two'',
        reg_subdomain = ''acme'', reg_email = ''founder@acme2.com'', reg_password = ''pw''\<rparr>"
    by (simp add: seed_db_def)
  have free: "\<forall>org\<in>set (organizations seed_db).
      org_subdomain org \<noteq> reg_subdomain \<lparr>reg_organization_name = ''Gamma'',
        reg_subdomain = ''gamma'', reg_email = ''admin@acme.com'', reg_password = ''pw''\<rparr>"
    by (simp add: seed_db_def)
  have email: "\<exists>u\<in>set (users seed_db).
      user_email u = reg_email \<lparr>reg_organization_name = ''Gamma'',
        reg_subdomain = ''gamma'', reg_email = ''admin@acme.com'', reg_password = ''pw''\<rparr>"
    by (simp add: seed_db_def)
  have a: "register example_externals default_settings 1000 ''salt'' ''r1''
        \<lparr>reg_organization_name = ''Acme Two'', reg_subdomain = ''acme'',
         reg_email = ''founder@acme2.com'', reg_password = ''pw''\<rparr> seed_db
       = (Inl (HTTPException 400 ''Subdomain already exists''), seed_db)"
    using register_conflict_atomic [OF wf, of _ example_externals default_settings 1000
        "''salt''" "''r1''"] taken by blast
  have b: "register example_externals default_settings 1000 ''salt'' ''r1''
        \<lparr>reg_organization_name = ''Gamma'', reg_subdomain = ''gamma'',
         reg_email = ''admin@acme.com'', reg_password = ''pw''\<rparr> seed_db
       = (Inl (HTTPException 400 ''Email already registered''), seed_db)"
    using register_conflict_atomic [OF wf, of _ example_externals default_settings 1000
        "''salt''" "''r1''"] free email by blast
  from wf a b show ?thesis by blast
qed

text \<open>A registration with a free subdomain and a free email goes through.\<close>

lemma register_ok_example:
  "\<exists>resp d'. register example_externals default_settings 1000 ''abcdefghijklmnopqrstuv'' ''r1''
        \<lparr>reg_organization_name = ''Gamma'', reg_subdomain = ''gamma'',
         reg_email = ''g@gamma.com'', reg_password = ''pw''\<rparr> seed_db = (Inr resp, d')
     \<and> map org_subdomain (organizations d') = [''acme'', ''beta'', ''gamma'']
     \<and> map user_password_hash (users d') =
         [Some ''$2b$12$h1'', Some ''$2b$12$h2'', Some ''$2b$12$h3'', Some ''$2b$12$h4'',
          Some ''$2b$12$abcdefghijklmnopqrstuvpwabcdefghijklmnopqrstuv.......'']
     \<and> resp_refresh_token resp = ''r1''"
proof -
  have h: "hash_password example_externals ''abcdefghijklmnopqrstuv'' ''pw''
      = Inr ''$2b$12$abcdefghijklmnopqrstuvpwabcdefghijklmnopqrstuv.......''"
    by (simp add: hash_password_def pwd_context_hash_def bcrypt_hash_def bcrypt_calc_checksum_def
          example_externals_def bcrypt64_def)
  have s: "hash_token example_externals ''r1'' = ''sha256:r1''"
    by (simp add: hash_token_def example_externals_def)
  show ?thesis
    by (simp add: register_def seed_db_def add_organization_def add_user_def add_membership_def
        generate_tokens_def add_refresh_token_def h s Let_def next_id_def)
qed

section \<open>Tenant resolution priority\<close>

lemma split_nonempty: "split sep s \<noteq> []"
  by (induction s) (auto split: list.splits)

lemma hd_split: "hd (split sep s) = takeWhile (\<lambda>c. c \<noteq> sep) s"
proof (induction s)
  case Nil
  then show ?case by simp
next
  case (Cons c cs)
  then show ?case
    using split_nonempty [of sep cs] by (auto split: list.splits)
qed

lemma split_first: "\<exists>rest. split sep s = takeWhile (\<lambda>c. c \<noteq> sep) s # rest"
proof -
  have "split sep s = hd (split sep s) # tl (split sep s)"
    using split_nonempty [of sep s] by simp
  then show ?thesis unfolding hd_split by blast
qed

lemma split_cons_sep: "split sep (sep # cs) = [] # split sep cs"
  by simp

lemma split_cons_other:
  "c \<noteq> sep \<Longrightarrow> split sep (c # cs) = (c # hd (split sep cs)) # tl (split sep cs)"
  using split_nonempty [of sep cs] by (auto split: list.splits)

lemma split_bearer:
  assumes "prefix ''Bearer '' a"
  shows "\<exists>rest. split CHR '' '' a =
           ''Bearer'' # takeWhile (\<lambda>c. c \<noteq> CHR '' '') (drop 7 a) # rest"
proof -
  from assms obtain r where a: "a = ''Bearer '' @ r" by (auto simp: prefix_def)
  have d: "drop 7 a = r" by (simp add: a)
  have "split CHR '' '' r = hd (split CHR '' '' r) # tl (split CHR '' '' r)"
    using split_nonempty [of "CHR '' ''" r] by simp
  then have "split CHR '' '' a = ''Bearer'' # hd (split CHR '' '' r) # tl (split CHR '' '' r)"
    by (simp add: a split_cons_other split_cons_sep del: split.simps)
  then show ?thesis by (simp add: hd_split d)
qed


lemma find_unique_key:
  assumes "distinct (map f xs)" and "x \<in> set xs"
  shows "List.find (\<lambda>y. f y = f x) xs = Some x"
  using assms by (induction xs) (auto simp: image_iff)

lemma resolve_by_token_claim:
  assumes wf: "wf_db d"
      and hdr: "map_of (headers request) ''authorization'' = Some a"
      and bearer: "prefix ''Bearer '' a"
      and ok: "verify_token L cfg now (takeWhile (\<lambda>c. c \<noteq> CHR '' '') (drop 7 a)) = Some payload"
      and claim: "map_of payload ''org_id'' = Some (JInt i)"
  shows "resolve_by_token L cfg now request d =
           Inr (List.find (\<lambda>org. org_id org = i) (organizations d))"
proof -
  from split_bearer [OF bearer] obtain rest where
    sp: "split CHR '' '' a = ''Bearer'' # takeWhile (\<lambda>c. c \<noteq> CHR '' '') (drop 7 a) # rest" ..
  have ne: "a \<noteq> []" using bearer by auto
  have pne: "payload \<noteq> []" using claim by auto
  have q: "scalar_one_or_none (filter (\<lambda>org. org_id org = i) (organizations d)) =
           Inr (List.find (\<lambda>org. org_id org = i) (organizations d))"
    using wf by (intro scalar_one_or_none_unique) (simp add: wf_db_def)
  show ?thesis
    unfolding resolve_by_token_def
    by (simp only: hdr option.case bearer ne sp list.case ok claim pne jval.case q
          not_False_eq_True simp_thms if_True option.distinct)
qed

lemma resolve_by_token_none:
  assumes "case map_of (headers request) ''authorization'' of
             None \<Rightarrow> True
           | Some a \<Rightarrow>
               \<not> prefix ''Bearer '' a \<or>
               (case verify_token L cfg now (takeWhile (\<lambda>c. c \<noteq> CHR '' '') (drop 7 a)) of
                  None \<Rightarrow> True
                | Some payload \<Rightarrow> map_of payload ''org_id'' = None)"
  shows "resolve_by_token L cfg now request d = Inr None"
proof (cases "map_of (headers request) ''authorization''")
  case None
  then show ?thesis by (simp add: resolve_by_token_def)
next
  case (Some a)
  show ?thesis
  proof (cases "prefix ''Bearer '' a")
    case False
    with Some show ?thesis by (simp add: resolve_by_token_def)
  next
    case True
    from split_bearer [OF True] obtain rest where
      sp: "split CHR '' '' a = ''Bearer'' # takeWhile (\<lambda>c. c \<noteq> CHR '' '') (drop 7 a) # rest" ..
    from assms Some True
    have "case verify_token L cfg now (takeWhile (\<lambda>c. c \<noteq> CHR '' '') (drop 7 a)) of
                  None \<Rightarrow> True
                | Some payload \<Rightarrow> map_of payload ''org_id'' = None"
      by simp
    then show ?thesis
      unfolding resolve_by_token_def
      by (simp add: Some True sp split: option.splits del: split.simps)
  qed
qed

lemma resolve_organization_subdomain:
  assumes wf: "wf_db d"
      and host: "host = (case map_of (headers request) ''host'' of None \<Rightarrow> [] | Some h \<Rightarrow> h)"
      and dot: "CHR ''.'' \<in> set host"
      and label: "takeWhile (\<lambda>c. c \<noteq> CHR ''.'') host \<noteq> []"
                 "takeWhile (\<lambda>c. c \<noteq> CHR ''.'') host \<noteq> ''www''"
      and org: "org \<in> set (organizations d)"
               "org_subdomain org = takeWhile (\<lambda>c. c \<noteq> CHR ''.'') host"
  shows "resolve_organization L cfg now request d = Inr (Some org)"
proof -
  have q: "scalar_one_or_none
        (filter (\<lambda>x. org_subdomain x = org_subdomain org) (organizations d)) =
      Inr (List.find (\<lambda>x. org_subdomain x = org_subdomain org) (organizations d))"
    using wf by (intro scalar_one_or_none_unique) (simp add: wf_db_def)
  have f: "List.find (\<lambda>x. org_subdomain x = org_subdomain org) (organizations d) = Some org"
    using wf org(1) by (intro find_unique_key) (simp_all add: wf_db_def)
  from split_first [of "CHR ''.''" host] obtain rest where
    sp: "split CHR ''.'' host = org_subdomain org # rest"
    unfolding org(2) ..
  show ?thesis
    unfolding resolve_organization_def host [symmetric] Let_def
    using dot label by (simp add: sp org(2) [symmetric] q f del: split.simps)
qed

lemma resolve_organization_fallback:
  assumes wf: "wf_db d"
      and host: "host = (case map_of (headers request) ''host'' of None \<Rightarrow> [] | Some h \<Rightarrow> h)"
      and no: "\<not> (CHR ''.'' \<in> set host \<and> takeWhile (\<lambda>c. c \<noteq> CHR ''.'') host \<noteq> []
                  \<and> takeWhile (\<lambda>c. c \<noteq> CHR ''.'') host \<noteq> ''www''
                  \<and> (\<exists>org\<in>set (organizations d).
                        org_subdomain org = takeWhile (\<lambda>c. c \<noteq> CHR ''.'') host))"
  shows "resolve_organization L cfg now request d = resolve_by_token L cfg now request d"
proof -
  let ?l = "takeWhile (\<lambda>c. c \<noteq> CHR ''.'') host"
  have q: "scalar_one_or_none (filter (\<lambda>x. org_subdomain x = ?l) (organizations d)) =
      Inr (List.find (\<lambda>x. org_subdomain x = ?l) (organizations d))"
    using wf by (intro scalar_one_or_none_unique) (simp add: wf_db_def)
  from split_first [of "CHR ''.''" host] obtain rest where
    sp: "split CHR ''.'' host = ?l # rest" ..
  show ?thesis
  proof (cases "CHR ''.'' \<in> set host \<and> ?l \<noteq> [] \<and> ?l \<noteq> ''www''")
    case True
    with no have "\<forall>org\<in>set (organizations d). org_subdomain org \<noteq> ?l" by blast
    then have "List.find (\<lambda>x. org_subdomain x = ?l) (organizations d) = None"
      by (simp add: find_None_iff)
    then show ?thesis
      unfolding resolve_organization_def host [symmetric] Let_def
      using True by (simp add: sp q del: split.simps)
  next
    case False
    then show ?thesis
      unfolding resolve_organization_def host [symmetric] Let_def
      by (auto simp: sp simp del: split.simps)
  qed
qed


text \<open>
  Claim C2. Tenant resolution follows a fixed priority. \<open>host\<close> is the host header
  (empty when absent) and \<open>label\<close> its leftmost label. When the host contains a dot, the
  label is neither empty nor \<open>www\<close> and an organization has it as subdomain, that
  organization is the result, whatever the authorization header carries. Otherwise,
  when the authorization header is \<open>Bearer\<close> followed by a token that \<open>verify_token\<close>
  decodes with an integer \<open>org_id\<close> claim, the result is the lookup of the organization
  with that id. Otherwise no organization is resolved.
\<close>

theorem resolve_organization_priority:
  assumes wf: "wf_db d"
      and host: "host = (case map_of (headers request) ''host'' of None \<Rightarrow> [] | Some h \<Rightarrow> h)"
      and label: "label = takeWhile (\<lambda>c. c \<noteq> CHR ''.'') host"
      and matched: "matched = (CHR ''.'' \<in> set host \<and> label \<noteq> [] \<and> label \<noteq> ''www''
                      \<and> (\<exists>org\<in>set (organizations d). org_subdomain org = label))"
  shows "(matched \<longrightarrow>
            (\<forall>org\<in>set (organizations d). org_subdomain org = label \<longrightarrow>
               resolve_organization L cfg now request d = Inr (Some org)))
       \<and> (\<not> matched \<longrightarrow>
            (\<forall>a payload i.
               map_of (headers request) ''authorization'' = Some a \<and> prefix ''Bearer '' a
               \<and> verify_token L cfg now (takeWhile (\<lambda>c. c \<noteq> CHR '' '') (drop 7 a)) = Some payload
               \<and> map_of payload ''org_id'' = Some (JInt i) \<longrightarrow>
               resolve_organization L cfg now request d =
                 Inr (List.find (\<lambda>org. org_id org = i) (organizations d))))
       \<and> (\<not> matched \<and>
            (case map_of (headers request) ''authorization'' of
               None \<Rightarrow> True
             | Some a \<Rightarrow>
                 \<not> prefix ''Bearer '' a \<or>
                 (case verify_token L cfg now (takeWhile (\<lambda>c. c \<noteq> CHR '' '') (drop 7 a)) of
                    None \<Rightarrow> True
                  | Some payload \<Rightarrow> map_of payload ''org_id'' = None)) \<longrightarrow>
            resolve_organization L cfg now request d = Inr None)"
proof (intro conjI impI ballI allI)
  fix org
  assume "matched" and "org \<in> set (organizations d)" and "org_subdomain org = label"
  then show "resolve_organization L cfg now request d = Inr (Some org)"
    using resolve_organization_subdomain [OF wf host, of org L cfg now]
    unfolding matched label by blast
next
  fix a payload i
  assume no: "\<not> matched"
     and tok: "map_of (headers request) ''authorization'' = Some a \<and> prefix ''Bearer '' a
               \<and> verify_token L cfg now (takeWhile (\<lambda>c. c \<noteq> CHR '' '') (drop 7 a)) = Some payload
               \<and> map_of payload ''org_id'' = Some (JInt i)"
  have "resolve_organization L cfg now request d = resolve_by_token L cfg now request d"
    using no unfolding matched label by (rule resolve_organization_fallback [OF wf host])
  also have "\<dots> = Inr (List.find (\<lambda>org. org_id org = i) (organizations d))"
    using tok by (intro resolve_by_token_claim [OF wf]) blast+
  finally show "resolve_organization L cfg now request d =
                 Inr (List.find (\<lambda>org. org_id org = i) (organizations d))" .
next
  assume no: "\<not> matched \<and>
            (case map_of (headers request) ''authorization'' of
               None \<Rightarrow> True
             | Some a \<Rightarrow>
                 \<not> prefix ''Bearer '' a \<or>
                 (case verify_token L cfg now (takeWhile (\<lambda>c. c \<noteq> CHR '' '') (drop 7 a)) of
                    None \<Rightarrow> True
                  | Some payload \<Rightarrow> map_of payload ''org_id'' = None))"
  have "resolve_organization L cfg now request d = resolve_by_token L cfg now request d"
    using no unfolding matched label by (intro resolve_organization_fallback [OF wf host]) blast
  also have "\<dots> = Inr None"
    using no by (intro resolve_by_token_none) blast
  finally show "resolve_organization L cfg now request d = Inr None" .
qed

text \<open>The definitions to unfold when the example tokens are verified.\<close>

lemmas ex_eval = verify_token_def jwt_decode_def example_externals_def example_tokens_def
  default_settings_def validate_claims_def validate_iat_def validate_nbf_def validate_exp_def
  validate_aud_def validate_sub_def validate_jti_def

theorem resolve_organization_priority_witness:
  "wf_db seed_db
   \<and> resolve_organization example_externals default_settings 1000
        \<lparr>headers = [(''host'', ''acme.example.local''), (''authorization'', ''Bearer beta-token'')]\<rparr>
        seed_db
       = Inr (Some \<lparr>org_id = 1, org_name = ''Acme Corporation'', org_subdomain = ''acme''\<rparr>)
   \<and> verify_token example_externals default_settings 1000 ''beta-token''
       = Some [(''user_id'', JInt 3), (''org_id'', JInt 2), (''role'', JStr ''admin''),
               (''exp'', JInt 1900), (''iss'', JStr ''taskmanager'')]
   \<and> resolve_organization example_externals default_settings 1000
        \<lparr>headers = [(''host'', ''www.example.local''), (''authorization'', ''Bearer beta-token'')]\<rparr>
        seed_db
       = Inr (Some \<lparr>org_id = 2, org_name = ''Beta Company'', org_subdomain = ''beta''\<rparr>)
   \<and> resolve_organization example_externals default_settings 1000
        \<lparr>headers = [(''host'', ''localhost''), (''authorization'', ''Bearer forged-token'')]\<rparr>
        seed_db
       = Inr None"
proof -
  have wf: "wf_db seed_db" by (simp add: wf_db_def seed_db_def)
  have tok: "verify_token example_externals default_settings 1000 ''beta-token''
       = Some [(''user_id'', JInt 3), (''org_id'', JInt 2), (''role'', JStr ''admin''),
               (''exp'', JInt 1900), (''iss'', JStr ''taskmanager'')]"
    by (simp add: ex_eval)
  have forged: "verify_token example_externals default_settings 1000 ''forged-token'' = None"
    by (simp add: ex_eval)
  let ?r1 = "\<lparr>headers = [(''host'', ''acme.example.local''), (''authorization'', ''Bearer beta-token'')]\<rparr>"
  let ?r2 = "\<lparr>headers = [(''host'', ''www.example.local''), (''authorization'', ''Bearer beta-token'')]\<rparr>"
  let ?r3 = "\<lparr>headers = [(''host'', ''localhost''), (''authorization'', ''Bearer forged-token'')]\<rparr>"
  have a: "resolve_organization example_externals default_settings 1000 ?r1 seed_db
       = Inr (Some \<lparr>org_id = 1, org_name = ''Acme Corporation'', org_subdomain = ''acme''\<rparr>)"
    using resolve_organization_priority [OF wf, of "''acme.example.local''" ?r1 "''acme''" True
        example_externals default_settings 1000]
    by (simp add: seed_db_def)
  have b: "resolve_organization example_externals default_settings 1000 ?r2 seed_db
       = Inr (Some \<lparr>org_id = 2, org_name = ''Beta Company'', org_subdomain = ''beta''\<rparr>)"
    using resolve_organization_priority [OF wf, of "''www.example.local''" ?r2 "''www''" False
        example_externals default_settings 1000] tok
    by (simp add: seed_db_def)
  have c: "resolve_organization example_externals default_settings 1000 ?r3 seed_db = Inr None"
    using resolve_organization_priority [OF wf, of "''localhost''" ?r3 "''localhost''" False
        example_externals default_settings 1000] forged
    by (simp add: seed_db_def)
  from wf a tok b c show ?thesis by blast
qed

section \<open>Access-token verification\<close>

text \<open>
  What \<open>verify_token\<close> does check: a payload is returned only for a token that parses,
  names HS256, carries the signature of its payload under the shared secret and has no
  \<open>exp\<close> that has passed; a wrong signature or a past expiry gives \<open>None\<close>.
\<close>

lemma validate_claims_Inr:
  "validate_claims L now payload = Inr p \<Longrightarrow>
     p = payload \<and>
     (\<forall>v. map_of payload ''exp'' = Some v \<longrightarrow> (\<exists>e. numeric_claim L v = Some e \<and> now < e))"
proof -
  assume ok: "validate_claims L now payload = Inr p"
  then have p: "p = payload" and e: "validate_exp L now payload = None"
    by (auto simp: validate_claims_def split: option.splits)
       (cases "validate_iat L now payload"; cases "validate_nbf L now payload";
        cases "validate_exp L now payload"; simp)
  from e have "\<forall>v. map_of payload ''exp'' = Some v \<longrightarrow> (\<exists>e. numeric_claim L v = Some e \<and> now < e)"
    by (auto simp: validate_exp_def split: option.splits if_splits)
  with p show ?thesis by blast
qed

lemma verify_token_sound:
  assumes "verify_token L cfg now token = Some payload"
  shows "\<exists>j. jws_parse L token = Some j \<and> jws_alg j = ''HS256'' \<and> jws_payload j = payload
            \<and> jws_sig j = hmac_sha256 L (JWT_SECRET cfg) (''HS256'', payload)
            \<and> (\<forall>v. map_of payload ''exp'' = Some v \<longrightarrow>
                  (\<exists>e. numeric_claim L v = Some e \<and> now < e))"
  using assms validate_claims_Inr [of L now]
  by (auto simp: verify_token_def jwt_decode_def split: option.splits sum.splits if_splits)

lemma verify_token_expired:
  assumes "jws_parse L token = Some j" and "map_of (jws_payload j) ''exp'' = Some v"
      and "numeric_claim L v = Some e" and "e \<le> now"
  shows "verify_token L cfg now token = None"
  using assms
proof -
  have "validate_exp L now (jws_payload j) = Some ExpiredSignatureError"
    using assms by (simp add: validate_exp_def)
  then have "first_error
             [validate_iat L now (jws_payload j), validate_nbf L now (jws_payload j),
              validate_exp L now (jws_payload j), validate_aud (jws_payload j),
              validate_sub (jws_payload j), validate_jti (jws_payload j)] \<noteq> None"
    by (cases "validate_iat L now (jws_payload j)"; cases "validate_nbf L now (jws_payload j)") simp_all
  then have "\<exists>e. validate_claims L now (jws_payload j) = Inl e"
    by (auto simp: validate_claims_def split: option.splits)
  then show ?thesis
    using assms(1) by (auto simp: verify_token_def jwt_decode_def)
qed

lemma verify_token_bad_signature:
  assumes "jws_parse L token = Some j"
      and "jws_sig j \<noteq> hmac_sha256 L (JWT_SECRET cfg) (jws_alg j, jws_payload j)"
  shows "verify_token L cfg now token = None"
  using assms by (auto simp: verify_token_def jwt_decode_def)

text \<open>
  Claim C5 says that a token naming a wrong issuer is rejected. \<open>create_access_token\<close>
  stamps \<open>iss\<close> with the configured issuer, but \<open>verify_token\<close> calls \<open>jwt.decode\<close>
  without an \<open>issuer\<close>, so the claim is never compared: the answer of \<open>verify_token\<close>
  is the same under every configured issuer, and under the default settings (issuer
  \<open>taskmanager\<close>) the unexpired token \<open>foreign-token\<close>, signed with the shared secret and
  naming the issuer \<open>another-service\<close>, is accepted with its claims.
\<close>

theorem verify_token_ignores_issuer:
  "verify_token L (cfg\<lparr>JWT_ISSUER := issuer\<rparr>) now token = verify_token L cfg now token
   \<and> JWT_ISSUER default_settings = ''taskmanager''
   \<and> verify_token example_externals default_settings 1000 ''foreign-token''
       = Some [(''user_id'', JInt 3), (''org_id'', JInt 2), (''role'', JStr ''admin''),
               (''exp'', JInt 1900), (''iss'', JStr ''another-service'')]"
  by (simp add: ex_eval)


text \<open>
  The same for every library whose parser reads back what its serialiser writes: a
  token minted under any other issuer, for data without registered claims of its own,
  verifies.
\<close>

lemma foreign_issuer_token_verifies:
  assumes codec: "\<And>j. jws_parse L (jws_compact L j) = Some j"
      and ttl: "0 < ACCESS_TTL_MIN cfg"
      and plain: "map_of data ''iat'' = None" "map_of data ''nbf'' = None"
                 "map_of data ''aud'' = None" "map_of data ''sub'' = None"
                 "map_of data ''jti'' = None"
  shows "verify_token L cfg now (create_access_token L (cfg\<lparr>JWT_ISSUER := issuer\<rparr>) now data) =
     Some (AList.update ''iss'' (JStr issuer)
             (AList.update ''exp'' (JInt (now + timedelta_minutes (ACCESS_TTL_MIN cfg))) data))"
  using ttl plain
  by (simp add: verify_token_def create_access_token_def jwt_encode_def jwt_decode_def codec
        validate_claims_def validate_iat_def validate_nbf_def validate_exp_def validate_aud_def
        validate_sub_def validate_jti_def update_conv' timedelta_minutes_def Let_def)

section \<open>Password hashing\<close>

lemma split_no_sep: "sep \<notin> set s \<Longrightarrow> split sep s = [s]"
  by (induction s) auto

lemma split_at_sep: "sep \<notin> set a \<Longrightarrow> split sep (a @ sep # b) = a # split sep b"
  by (induction a) auto

lemma dollar_not_bcrypt64: "CHR ''$'' \<notin> set bcrypt64"
  by (simp add: bcrypt64_def)

lemma bcrypt_rounds_12: "bcrypt_rounds ''12'' = Some 12"
  by (simp add: bcrypt_rounds_def digit_def)

lemma no_dollar:
  "list_all (\<lambda>c. c \<in> set bcrypt64) s \<Longrightarrow> CHR ''$'' \<notin> set s"
  using dollar_not_bcrypt64 by (auto simp: list_all_iff)

lemma bcrypt_from_string_hash:
  assumes "bcrypt_salt_ok salt" and "bcrypt_checksum_ok c"
  shows "bcrypt_from_string (''$2b$12$'' @ salt @ c) = Inr (''$2b$'', 12, salt, c)"
proof -
  have nd: "CHR ''$'' \<notin> set (salt @ c)"
    using assms no_dollar by (auto simp: bcrypt_salt_ok_def bcrypt_checksum_ok_def)
  have sp: "split CHR ''$'' (CHR ''1'' # CHR ''2'' # CHR ''$'' # salt @ c) = [''12'', salt @ c]"
    using split_at_sep [of "CHR ''$''" "''12''" "salt @ c"] split_no_sep [OF nd] by simp
  have len: "length salt = 22" using assms(1) by (simp add: bcrypt_salt_ok_def)
  show ?thesis
    unfolding bcrypt_from_string_def
    by (simp add: bcrypt_idents_def sp bcrypt_rounds_12 len assms del: split.simps)
qed


lemma hash_password_accepts:
  assumes "length p \<le> 4096" and "CHR 0x00 \<notin> set p"
      and "bcrypt_digest L ''$2b$'' 12 salt p = Inr c"
  shows "hash_password L salt p = Inr (''$2b$12$'' @ salt @ c)"
  using assms
  by (simp add: hash_password_def pwd_context_hash_def bcrypt_hash_def bcrypt_calc_checksum_def)

lemma verify_password_own_hash:
  assumes "length p \<le> 4096" and "CHR 0x00 \<notin> set p"
      and "bcrypt_salt_ok salt"
      and "bcrypt_digest L ''$2b$'' 12 salt p = Inr c" and "bcrypt_checksum_ok c"
  shows "verify_password L p (''$2b$12$'' @ salt @ c) = Inr True"
proof -
  have i: "bcrypt_identify (''$2b$12$'' @ salt @ c)"
    by (simp add: bcrypt_identify_def bcrypt_idents_def)
  show ?thesis
    unfolding verify_password_def pwd_context_verify_def bcrypt_verify_def
      bcrypt_from_string_hash [OF assms(3) assms(5)]
    using assms(1,2,4) i by (simp add: bcrypt_calc_checksum_def)
qed

lemma hash_password_refuses_nul:
  "CHR 0x00 \<in> set q \<Longrightarrow> \<exists>e. hash_password L salt q = Inl e"
  by (simp add: hash_password_def pwd_context_hash_def bcrypt_hash_def bcrypt_calc_checksum_def)

text \<open>
  Claim C9, as amended. Password hashing round-trips on every plaintext the hasher
  accepts. For a plaintext \<open>p\<close> of at most 4096 characters without a NUL character, for
  which the bcrypt backend returns a checksum, \<open>hash_password\<close> returns a hash with
  either of two salts it may draw, \<open>verify_password\<close> of \<open>p\<close> against each of the two
  hashes is true, and the two hashes differ when the salts differ. On a plaintext that
  contains a NUL character \<open>hash_password\<close> raises.
\<close>

theorem password_round_trip:
  assumes plain: "length p \<le> 4096" "CHR 0x00 \<notin> set p"
      and salts: "bcrypt_salt_ok salt" "bcrypt_salt_ok salt'"
      and backend: "bcrypt_digest L ''$2b$'' 12 salt p = Inr c"
                   "bcrypt_digest L ''$2b$'' 12 salt' p = Inr c'"
      and sums: "bcrypt_checksum_ok c" "bcrypt_checksum_ok c'"
  shows "\<exists>h h'. hash_password L salt p = Inr h \<and> hash_password L salt' p = Inr h'
           \<and> verify_password L p h = Inr True \<and> verify_password L p h' = Inr True
           \<and> (salt \<noteq> salt' \<longrightarrow> h \<noteq> h')
           \<and> (\<forall>s q. CHR 0x00 \<in> set q \<longrightarrow> (\<exists>e. hash_password L s q = Inl e))"
proof -
  let ?h = "''$2b$12$'' @ salt @ c" and ?h' = "''$2b$12$'' @ salt' @ c'"
  have n: "\<forall>s q. CHR 0x00 \<in> set q \<longrightarrow> (\<exists>e. hash_password L s q = Inl e)"
    using hash_password_refuses_nul by blast
  have a: "hash_password L salt p = Inr ?h"
    by (rule hash_password_accepts [OF plain backend(1)])
  have b: "hash_password L salt' p = Inr ?h'"
    by (rule hash_password_accepts [OF plain backend(2)])
  have v: "verify_password L p ?h = Inr True"
    by (rule verify_password_own_hash [OF plain salts(1) backend(1) sums(1)])
  have w: "verify_password L p ?h' = Inr True"
    by (rule verify_password_own_hash [OF plain salts(2) backend(2) sums(2)])
  have len: "length salt = length salt'"
    using salts by (simp add: bcrypt_salt_ok_def)
  have d: "salt \<noteq> salt' \<longrightarrow> ?h \<noteq> ?h'"
    using len by simp
  show ?thesis
    by (rule exI [of _ ?h], rule exI [of _ ?h'])
       (rule conjI [OF a conjI [OF b conjI [OF v conjI [OF w conjI [OF d n]]]]])
qed

text \<open>
  Claim C9 as stated, for every plaintext, fails on the plaintext that is one NUL
  character: \<open>hash_password\<close> raises passlib's \<open>NullPasswordError\<close>, so there is no hash
  to verify against.
\<close>

theorem hash_password_nul_counterexample:
  "bcrypt_salt_ok ''abcdefghijklmnopqrstuv''
   \<and> hash_password example_externals ''abcdefghijklmnopqrstuv'' [CHR 0x00]
       = Inl (PasslibError ''NullPasswordError'')"
  by (simp add: hash_password_def pwd_context_hash_def bcrypt_hash_def bcrypt_calc_checksum_def
        bcrypt_salt_ok_def bcrypt64_def)

theorem password_round_trip_witness:
  "hash_password example_externals ''abcdefghijklmnopqrstuv'' ''admin123''
     = Inr ''$2b$12$abcdefghijklmnopqrstuvadmin123abcdefghijklmnopqrstuv.''
   \<and> hash_password example_externals ''ABCDEFGHIJKLMNOPQRSTUV'' ''admin123''
     = Inr ''$2b$12$ABCDEFGHIJKLMNOPQRSTUVadmin123ABCDEFGHIJKLMNOPQRSTUV.''
   \<and> verify_password example_externals ''admin123''
        ''$2b$12$abcdefghijklmnopqrstuvadmin123abcdefghijklmnopqrstuv.'' = Inr True
   \<and> verify_password example_externals ''admin123''
        ''$2b$12$ABCDEFGHIJKLMNOPQRSTUVadmin123ABCDEFGHIJKLMNOPQRSTUV.'' = Inr True
   \<and> verify_password example_externals ''admin124''
        ''$2b$12$abcdefghijklmnopqrstuvadmin123abcdefghijklmnopqrstuv.'' = Inr False"
proof -
  let ?s = "''abcdefghijklmnopqrstuv''" and ?s' = "''ABCDEFGHIJKLMNOPQRSTUV''"
  let ?c = "''admin123abcdefghijklmnopqrstuv.''" and ?c' = "''admin123ABCDEFGHIJKLMNOPQRSTUV.''"
  have p1: "length ''admin123'' \<le> 4096" and p2: "CHR 0x00 \<notin> set ''admin123''" by simp_all
  have s1: "bcrypt_salt_ok ?s" and s2: "bcrypt_salt_ok ?s'"
    by (simp_all add: bcrypt_salt_ok_def bcrypt64_def)
  have b1: "bcrypt_digest example_externals ''$2b$'' 12 ?s ''admin123'' = Inr ?c"
    by (simp add: example_externals_def bcrypt64_def)
  have b2: "bcrypt_digest example_externals ''$2b$'' 12 ?s' ''admin123'' = Inr ?c'"
    by (simp add: example_externals_def bcrypt64_def)
  have k1: "bcrypt_checksum_ok ?c" and k2: "bcrypt_checksum_ok ?c'"
    by (simp_all add: bcrypt_checksum_ok_def bcrypt64_def)
  from password_round_trip [OF p1 p2 s1 s2 b1 b2 k1 k2]
  obtain h h' where
    a: "hash_password example_externals ?s ''admin123'' = Inr h"
    and b: "hash_password example_externals ?s' ''admin123'' = Inr h'"
    and v: "verify_password example_externals ''admin123'' h = Inr True"
    and w: "verify_password example_externals ''admin123'' h' = Inr True"
    by blast
  have h: "h = ''$2b$12$abcdefghijklmnopqrstuvadmin123abcdefghijklmnopqrstuv.''"
    using a hash_password_accepts [OF p1 p2 b1] by simp
  have h': "h' = ''$2b$12$ABCDEFGHIJKLMNOPQRSTUVadmin123ABCDEFGHIJKLMNOPQRSTUV.''"
    using b hash_password_accepts [OF p1 p2 b2] by simp
  have b3: "bcrypt_digest example_externals ''$2b$'' 12 ?s ''admin124''
              = Inr ''admin124abcdefghijklmnopqrstuv.''"
    by (simp add: example_externals_def bcrypt64_def)
  have wrong: "verify_password example_externals ''admin124''
        ''$2b$12$abcdefghijklmnopqrstuvadmin123abcdefghijklmnopqrstuv.'' = Inr False"
  proof -
    have i: "bcrypt_identify (''$2b$12$'' @ ?s @ ?c)"
      by (simp add: bcrypt_identify_def bcrypt_idents_def)
    have "verify_password example_externals ''admin124'' (''$2b$12$'' @ ?s @ ?c) = Inr False"
      unfolding verify_password_def pwd_context_verify_def bcrypt_verify_def
        bcrypt_from_string_hash [OF s1 k1]
      using i b3 by (simp add: bcrypt_calc_checksum_def)
    then show ?thesis by simp
  qed
  show ?thesis
    using a b v w wrong unfolding h h' by blast
qed

section \<open>OTP verification\<close>

lemma scalar_user_by_email:
  assumes "distinct (map user_email (users d))" and "u \<in> set (users d)" and "user_email u = email"
  shows "scalar_one_or_none (filter (\<lambda>x. user_email x = email) (users d)) = Inr (Some u)"
proof -
  note d = assms(1)
  have "scalar_one_or_none (filter (\<lambda>x. user_email x = user_email u) (users d)) =
        Inr (List.find (\<lambda>x. user_email x = user_email u) (users d))"
    by (rule scalar_one_or_none_unique [OF d])
  also have "List.find (\<lambda>x. user_email x = user_email u) (users d) = Some u"
    by (rule find_unique_key [OF d assms(2)])
  finally show ?thesis using assms(3) by simp
qed

lemma verify_otp_success:
  assumes wf: "distinct (map user_email (users d))"
      and user: "u \<in> set (users d)" "user_email u = otp_req_email request"
      and otp: "filter (\<lambda>c. otp_user_id c = user_id u \<and> otp_code c = otp_req_code request
                            \<and> otp_expires_at c > now \<and> otp_consumed c = None) (otp_codes d) = [c]"
      and mem: "filter (\<lambda>m. mem_user_id m = user_id u) (memberships d) = [m]"
      and fresh: "hash_token L rnd \<notin> set (map rt_token_hash (refresh_tokens d))"
  shows "verify_otp L cfg now rnd request d =
     (Inr \<lparr>access_token = create_access_token L cfg now
             [(''user_id'', JInt (user_id u)), (''org_id'', JInt (mem_org_id m)),
              (''role'', JStr (mem_role m))],
           resp_refresh_token = rnd, token_type = ''bearer'',
           expires_in = ACCESS_TTL_MIN cfg * 60\<rparr>,
      d\<lparr>otp_codes :=
           map (\<lambda>x. if otp_id x = otp_id c then x\<lparr>otp_consumed := Some now\<rparr> else x) (otp_codes d),
        refresh_tokens := refresh_tokens d @
          [\<lparr>rt_id = next_id (map rt_id (refresh_tokens d)), rt_user_id = user_id u,
            rt_org_id = mem_org_id m, rt_token_hash = hash_token L rnd,
            rt_expires_at = now + timedelta_days (REFRESH_TTL_DAYS cfg), rt_revoked = False\<rparr>]\<rparr>)"
proof -
  note q = scalar_user_by_email [OF wf user]
  show ?thesis
    unfolding verify_otp_def
    using fresh by (simp add: q otp mem Let_def generate_tokens_fresh)
qed

lemma verify_otp_no_match:
  assumes wf: "distinct (map user_email (users d))"
      and user: "u \<in> set (users d)" "user_email u = otp_req_email request"
      and otp: "filter (\<lambda>c. otp_user_id c = user_id u \<and> otp_code c = otp_req_code request
                            \<and> otp_expires_at c > now \<and> otp_consumed c = None) (otp_codes d) = []"
  shows "verify_otp L cfg now rnd request d = (Inl (HTTPException 401 ''Invalid or expired OTP''), d)"
  unfolding verify_otp_def
  by (simp add: scalar_user_by_email [OF wf user] otp)

lemma verify_otp_no_membership:
  assumes wf: "distinct (map user_email (users d))"
      and user: "u \<in> set (users d)" "user_email u = otp_req_email request"
      and otp: "filter (\<lambda>c. otp_user_id c = user_id u \<and> otp_code c = otp_req_code request
                            \<and> otp_expires_at c > now \<and> otp_consumed c = None) (otp_codes d) = [c]"
      and mem: "filter (\<lambda>m. mem_user_id m = user_id u) (memberships d) = []"
  shows "verify_otp L cfg now rnd request d =
           (Inl (HTTPException 400 ''User has no organization membership''), d)"
  unfolding verify_otp_def
  by (simp add: scalar_user_by_email [OF wf user] otp mem Let_def)

lemma verify_otp_several_memberships:
  assumes wf: "distinct (map user_email (users d))"
      and user: "u \<in> set (users d)" "user_email u = otp_req_email request"
      and otp: "filter (\<lambda>c. otp_user_id c = user_id u \<and> otp_code c = otp_req_code request
                            \<and> otp_expires_at c > now \<and> otp_consumed c = None) (otp_codes d) = [c]"
      and mem: "filter (\<lambda>m. mem_user_id m = user_id u) (memberships d) = m1 # m2 # ms"
  shows "verify_otp L cfg now rnd request d = (Inl MultipleResultsFound, d)"
  unfolding verify_otp_def
  by (simp add: scalar_user_by_email [OF wf user] otp mem Let_def)

lemma consumed_no_match:
  assumes otp: "filter (\<lambda>c. otp_user_id c = uid \<and> otp_code c = code
                            \<and> otp_expires_at c > now \<and> otp_consumed c = None) codes = [c]"
      and later: "now \<le> now'"
  shows "filter (\<lambda>c. otp_user_id c = uid \<and> otp_code c = code
                      \<and> otp_expires_at c > now' \<and> otp_consumed c = None)
           (map (\<lambda>x. if otp_id x = otp_id c then x\<lparr>otp_consumed := Some t\<rparr> else x) codes) = []"
proof -
  have "\<And>x. x \<in> set codes \<Longrightarrow> otp_user_id x = uid \<and> otp_code x = code
                      \<and> otp_expires_at x > now \<and> otp_consumed x = None \<Longrightarrow> x = c"
  proof -
    fix x assume "x \<in> set codes" and
      "otp_user_id x = uid \<and> otp_code x = code \<and> otp_expires_at x > now \<and> otp_consumed x = None"
    then have "x \<in> set (filter (\<lambda>c. otp_user_id c = uid \<and> otp_code c = code
                            \<and> otp_expires_at c > now \<and> otp_consumed c = None) codes)"
      by simp
    then show "x = c" unfolding otp by simp
  qed
  then show ?thesis
    using later by (fastforce simp: filter_empty_conv)
qed


lemma wf_db_emails: "wf_db d \<Longrightarrow> distinct (map user_email (users d))"
  by (simp add: wf_db_def)


text \<open>The example databases, to unfold when a handler runs on them.\<close>

lemmas db_eval = seed_db_def otp_db_def no_membership_db_def two_memberships_db_def
  refresh_db_def orphan_refresh_db_def


text \<open>
  Claim C4, as amended. In a database that satisfies its unique constraints, for a user
  with exactly one membership and exactly one stored OTP that matches the presented code
  and is unexpired and unconsumed, \<open>verify_otp\<close> succeeds (the refresh token drawn not
  being stored already) and marks that OTP consumed; from then on \<open>verify_otp\<close> with the
  same email and code fails with 401 "Invalid or expired OTP"; and a code for which the
  user has no unexpired, unconsumed, matching OTP (wrong, expired or consumed) is
  rejected with that same 401.
\<close>

theorem verify_otp_consumes_once:
  assumes wf: "wf_db d"
      and user: "u \<in> set (users d)" "user_email u = otp_req_email request"
      and otp: "filter (\<lambda>c. otp_user_id c = user_id u \<and> otp_code c = otp_req_code request
                            \<and> otp_expires_at c > now \<and> otp_consumed c = None) (otp_codes d) = [c]"
      and mem: "filter (\<lambda>m. mem_user_id m = user_id u) (memberships d) = [m]"
      and fresh: "hash_token L rnd \<notin> set (map rt_token_hash (refresh_tokens d))"
  shows "\<exists>resp d'. verify_otp L cfg now rnd request d = (Inr resp, d')
           \<and> otp_codes d' =
               map (\<lambda>x. if otp_id x = otp_id c then x\<lparr>otp_consumed := Some now\<rparr> else x) (otp_codes d)
           \<and> (\<forall>now' rnd'. now \<le> now' \<longrightarrow>
                 verify_otp L cfg now' rnd' request d' =
                   (Inl (HTTPException 401 ''Invalid or expired OTP''), d'))
           \<and> (\<forall>code' now' rnd'.
                 filter (\<lambda>c. otp_user_id c = user_id u \<and> otp_code c = code'
                            \<and> otp_expires_at c > now' \<and> otp_consumed c = None) (otp_codes d) = [] \<longrightarrow>
                 verify_otp L cfg now' rnd' \<lparr>otp_req_email = otp_req_email request, otp_req_code = code'\<rparr> d =
                   (Inl (HTTPException 401 ''Invalid or expired OTP''), d))"
proof -
  note de = wf_db_emails [OF wf]
  let ?codes = "map (\<lambda>x. if otp_id x = otp_id c then x\<lparr>otp_consumed := Some now\<rparr> else x) (otp_codes d)"
  let ?d' = "d\<lparr>otp_codes := ?codes,
        refresh_tokens := refresh_tokens d @
          [\<lparr>rt_id = next_id (map rt_id (refresh_tokens d)), rt_user_id = user_id u,
            rt_org_id = mem_org_id m, rt_token_hash = hash_token L rnd,
            rt_expires_at = now + timedelta_days (REFRESH_TTL_DAYS cfg), rt_revoked = False\<rparr>]\<rparr>"
  note ok = verify_otp_success [OF de user otp mem fresh, of cfg]
  have again: "verify_otp L cfg now' rnd' request ?d' =
                 (Inl (HTTPException 401 ''Invalid or expired OTP''), ?d')"
    if "now \<le> now'" for now' rnd'
  proof (rule verify_otp_no_match [of ?d' u])
    show "distinct (map user_email (users ?d'))" using de by simp
    show "u \<in> set (users ?d')" using user(1) by simp
    show "user_email u = otp_req_email request" by (rule user(2))
    show "filter (\<lambda>c. otp_user_id c = user_id u \<and> otp_code c = otp_req_code request
                       \<and> otp_expires_at c > now' \<and> otp_consumed c = None) (otp_codes ?d') = []"
      using consumed_no_match [OF otp that, of now] by simp
  qed
  have other: "verify_otp L cfg now' rnd' \<lparr>otp_req_email = otp_req_email request, otp_req_code = code'\<rparr> d =
                   (Inl (HTTPException 401 ''Invalid or expired OTP''), d)"
    if "filter (\<lambda>c. otp_user_id c = user_id u \<and> otp_code c = code'
                            \<and> otp_expires_at c > now' \<and> otp_consumed c = None) (otp_codes d) = []"
    for code' now' rnd'
    using that by (intro verify_otp_no_match [OF de user(1)]) (simp_all add: user(2))
  show ?thesis
    using ok again other by (intro exI conjI) (assumption | simp | blast)+
qed

text \<open>
  Claim C4 as stated fails for a user without a membership: \<open>admin@acme.com\<close> has a
  stored, unexpired, unconsumed OTP \<open>123456\<close>, yet \<open>verify_otp\<close> answers 400 and the
  database, the OTP in it still unconsumed, is unchanged.
\<close>

theorem verify_otp_no_membership_counterexample:
  "wf_db no_membership_db
   \<and> filter (\<lambda>c. otp_user_id c = 1 \<and> otp_code c = ''123456'' \<and> otp_expires_at c > 1000
                 \<and> otp_consumed c = None) (otp_codes no_membership_db)
       = [\<lparr>otp_id = 1, otp_user_id = 1, otp_code = ''123456'', otp_expires_at = 1600,
           otp_consumed = None\<rparr>]
   \<and> verify_otp example_externals default_settings 1000 ''r1''
        \<lparr>otp_req_email = ''admin@acme.com'', otp_req_code = ''123456''\<rparr> no_membership_db
       = (Inl (HTTPException 400 ''User has no organization membership''), no_membership_db)"
  by (simp add: wf_db_def db_eval verify_otp_def)


theorem verify_otp_consumes_once_witness:
  "wf_db otp_db
   \<and> (\<exists>resp d'. verify_otp example_externals default_settings 1000 ''r1''
          \<lparr>otp_req_email = ''admin@acme.com'', otp_req_code = ''123456''\<rparr> otp_db = (Inr resp, d')
        \<and> map otp_consumed (otp_codes d') = [Some 1000]
        \<and> verify_otp example_externals default_settings 1001 ''r2''
             \<lparr>otp_req_email = ''admin@acme.com'', otp_req_code = ''123456''\<rparr> d'
           = (Inl (HTTPException 401 ''Invalid or expired OTP''), d'))
   \<and> verify_otp example_externals default_settings 1000 ''r1''
        \<lparr>otp_req_email = ''admin@acme.com'', otp_req_code = ''000000''\<rparr> otp_db
       = (Inl (HTTPException 401 ''Invalid or expired OTP''), otp_db)
   \<and> verify_otp example_externals default_settings 1600 ''r1''
        \<lparr>otp_req_email = ''admin@acme.com'', otp_req_code = ''123456''\<rparr> otp_db
       = (Inl (HTTPException 401 ''Invalid or expired OTP''), otp_db)"
proof -
  let ?u = "\<lparr>user_id = 1, user_email = ''admin@acme.com'', user_password_hash = Some ''$2b$12$h1''\<rparr>"
  let ?c = "\<lparr>otp_id = 1, otp_user_id = 1, otp_code = ''123456'', otp_expires_at = 1600,
             otp_consumed = None\<rparr>"
  let ?m = "\<lparr>mem_id = 1, mem_user_id = 1, mem_org_id = 1, mem_role = ''admin''\<rparr>"
  let ?req = "\<lparr>otp_req_email = ''admin@acme.com'', otp_req_code = ''123456''\<rparr>"
  have wf: "wf_db otp_db" by (simp add: wf_db_def db_eval)
  have u1: "?u \<in> set (users otp_db)" by (simp add: db_eval)
  have u2: "user_email ?u = otp_req_email ?req" by simp
  have otp: "filter (\<lambda>c. otp_user_id c = user_id ?u \<and> otp_code c = otp_req_code ?req
                       \<and> otp_expires_at c > 1000 \<and> otp_consumed c = None) (otp_codes otp_db) = [?c]"
    by (simp add: db_eval)
  have mem: "filter (\<lambda>m. mem_user_id m = user_id ?u) (memberships otp_db) = [?m]"
    by (simp add: db_eval)
  have fresh: "hash_token example_externals ''r1'' \<notin> set (map rt_token_hash (refresh_tokens otp_db))"
    by (simp add: db_eval)
  from verify_otp_consumes_once [OF wf u1 u2 otp mem fresh, of default_settings]
  obtain resp d' where
    ok: "verify_otp example_externals default_settings 1000 ''r1'' ?req otp_db = (Inr resp, d')"
    and consumed: "otp_codes d' =
         map (\<lambda>x. if otp_id x = otp_id ?c then x\<lparr>otp_consumed := Some 1000\<rparr> else x) (otp_codes otp_db)"
    and again: "\<forall>now' rnd'. 1000 \<le> now' \<longrightarrow>
         verify_otp example_externals default_settings now' rnd' ?req d' =
           (Inl (HTTPException 401 ''Invalid or expired OTP''), d')"
    and other: "\<forall>code' now' rnd'.
         filter (\<lambda>c. otp_user_id c = user_id ?u \<and> otp_code c = code'
                    \<and> otp_expires_at c > now' \<and> otp_consumed c = None) (otp_codes otp_db) = [] \<longrightarrow>
         verify_otp example_externals default_settings now' rnd'
           \<lparr>otp_req_email = otp_req_email ?req, otp_req_code = code'\<rparr> otp_db =
           (Inl (HTTPException 401 ''Invalid or expired OTP''), otp_db)"
    by blast
  have c1: "map otp_consumed (otp_codes d') = [Some 1000]"
    unfolding consumed by (simp add: db_eval)
  have c2: "verify_otp example_externals default_settings 1001 ''r2'' ?req d'
           = (Inl (HTTPException 401 ''Invalid or expired OTP''), d')"
    using again by simp
  have c3: "verify_otp example_externals default_settings 1000 ''r1''
        \<lparr>otp_req_email = ''admin@acme.com'', otp_req_code = ''000000''\<rparr> otp_db
       = (Inl (HTTPException 401 ''Invalid or expired OTP''), otp_db)"
    using other [rule_format, of "''000000''" 1000 "''r1''"] by (simp add: db_eval)
  have c4: "verify_otp example_externals default_settings 1600 ''r1'' ?req otp_db
       = (Inl (HTTPException 401 ''Invalid or expired OTP''), otp_db)"
    using other [rule_format, of "''123456''" 1600 "''r1''"] by (simp add: db_eval)
  have ex: "\<exists>resp d'. verify_otp example_externals default_settings 1000 ''r1'' ?req otp_db = (Inr resp, d')
        \<and> map otp_consumed (otp_codes d') = [Some 1000]
        \<and> verify_otp example_externals default_settings 1001 ''r2'' ?req d'
           = (Inl (HTTPException 401 ''Invalid or expired OTP''), d')"
    by (rule exI [of _ resp], rule exI [of _ d']) (rule conjI [OF ok conjI [OF c1 c2]])
  show ?thesis
    by (rule conjI [OF wf conjI [OF ex conjI [OF c3 c4]]])
qed

section \<open>OTP login of a user with several memberships\<close>

text \<open>
  Claim C8 says that \<open>verify_otp\<close> picks the user's first membership. The handler reads
  the memberships with \<open>scalar_one_or_none()\<close>, which refuses more than one row:
  \<open>admin@acme.com\<close>, a member of Acme and of Beta with a valid OTP, gets
  \<open>MultipleResultsFound\<close> instead of a token pair, and nothing is committed.
\<close>

theorem verify_otp_two_memberships:
  "wf_db two_memberships_db
   \<and> filter (\<lambda>m. mem_user_id m = 1) (memberships two_memberships_db)
       = [\<lparr>mem_id = 1, mem_user_id = 1, mem_org_id = 1, mem_role = ''admin''\<rparr>,
          \<lparr>mem_id = 5, mem_user_id = 1, mem_org_id = 2, mem_role = ''member''\<rparr>]
   \<and> verify_otp example_externals default_settings 1000 ''r1''
        \<lparr>otp_req_email = ''admin@acme.com'', otp_req_code = ''123456''\<rparr> two_memberships_db
       = (Inl MultipleResultsFound, two_memberships_db)"
  by (simp add: wf_db_def db_eval verify_otp_def)


section \<open>Refresh-token rotation\<close>

lemma filter_unique_key:
  assumes "distinct (map f xs)" and "x \<in> set xs"
  shows "filter (\<lambda>y. f y = f x) xs = [x]"
proof -
  from filter_distinct_key [OF assms(1), of "f x"]
  show ?thesis
  proof
    assume "filter (\<lambda>y. f y = f x) xs = []"
    with assms(2) show ?thesis by (auto simp: filter_empty_conv)
  next
    assume "\<exists>y. filter (\<lambda>y. f y = f x) xs = [y]"
    then obtain y where y: "filter (\<lambda>y. f y = f x) xs = [y]" ..
    have "x \<in> set (filter (\<lambda>y. f y = f x) xs)" using assms(2) by simp
    then show ?thesis unfolding y by simp
  qed
qed

lemma scalar_live_token:
  assumes dh: "distinct (map rt_token_hash (refresh_tokens d))"
      and stored: "t \<in> set (refresh_tokens d)" "rt_token_hash t = h"
      and live: "now < rt_expires_at t" "\<not> rt_revoked t"
  shows "scalar_one_or_none
           (filter (\<lambda>x. rt_token_hash x = h \<and> rt_expires_at x > now \<and> rt_revoked x = False)
                   (refresh_tokens d)) = Inr (Some t)"
proof -
  have "filter (\<lambda>x. rt_token_hash x = h \<and> rt_expires_at x > now \<and> rt_revoked x = False)
               (refresh_tokens d) =
        filter (\<lambda>x. rt_expires_at x > now \<and> rt_revoked x = False)
               (filter (\<lambda>x. rt_token_hash x = rt_token_hash t) (refresh_tokens d))"
    by (simp add: stored(2) conj_commute)
  also have "\<dots> = [t]"
    unfolding filter_unique_key [OF dh stored(1)] using live by simp
  finally show ?thesis by simp
qed

lemma first_Some: "xs \<noteq> [] \<Longrightarrow> \<exists>x. first xs = Some x \<and> x \<in> set xs"
  by (cases xs) auto

lemma first_join:
  assumes "u \<in> set us" "m \<in> set ms" "user_id u = uid" "mem_user_id m = uid" "mem_org_id m = oid"
  shows "\<exists>u' m'. first [(u, m). u \<leftarrow> us, m \<leftarrow> ms, user_id u = mem_user_id m,
                                   user_id u = uid, mem_org_id m = oid] = Some (u', m')
            \<and> u' \<in> set us \<and> m' \<in> set ms \<and> user_id u' = uid \<and> mem_user_id m' = uid
            \<and> mem_org_id m' = oid"
proof -
  let ?j = "[(u, m). u \<leftarrow> us, m \<leftarrow> ms, user_id u = mem_user_id m,
                     user_id u = uid, mem_org_id m = oid]"
  have "(u, m) \<in> set ?j" using assms by auto
  then have "?j \<noteq> []" by auto
  from first_Some [OF this] obtain p where p: "first ?j = Some p" "p \<in> set ?j" by blast
  obtain u' m' where um: "p = (u', m')" by (cases p)
  from p(2) have "u' \<in> set us \<and> m' \<in> set ms \<and> user_id u' = uid \<and> mem_user_id m' = uid
            \<and> mem_org_id m' = oid"
    unfolding um by auto
  with p(1) um show ?thesis by blast
qed


lemma revoked_hashes:
  "map rt_token_hash (map (\<lambda>x. if rt_id x = i then x\<lparr>rt_revoked := True\<rparr> else x) xs) =
   map rt_token_hash xs"
  by (induction xs) auto

lemma refresh_token_succeeds:
  assumes dh: "distinct (map rt_token_hash (refresh_tokens d))"
      and stored: "t \<in> set (refresh_tokens d)" "rt_token_hash t = hash_token L T"
      and live: "now < rt_expires_at t" "\<not> rt_revoked t"
      and member: "u \<in> set (users d)" "m \<in> set (memberships d)" "user_id u = rt_user_id t"
                  "mem_user_id m = rt_user_id t" "mem_org_id m = rt_org_id t"
      and fresh: "hash_token L rnd \<notin> set (map rt_token_hash (refresh_tokens d))"
  shows "\<exists>resp new. refresh_token L cfg now rnd T d =
           (Inr resp,
            d\<lparr>refresh_tokens :=
                map (\<lambda>x. if rt_id x = rt_id t then x\<lparr>rt_revoked := True\<rparr> else x)
                    (refresh_tokens d) @ [new]\<rparr>)
         \<and> resp_refresh_token resp = rnd
         \<and> rt_token_hash new = hash_token L rnd \<and> rt_user_id new = rt_user_id t
         \<and> rt_org_id new = rt_org_id t
         \<and> rt_expires_at new = now + timedelta_days (REFRESH_TTL_DAYS cfg) \<and> \<not> rt_revoked new"
proof -
  note q = scalar_live_token [OF dh stored live]
  from first_join [OF member]
  obtain u' m' where j: "first [(u, m). u \<leftarrow> users d, m \<leftarrow> memberships d,
        user_id u = mem_user_id m, user_id u = rt_user_id t, mem_org_id m = rt_org_id t] = Some (u', m')"
    and um: "user_id u' = rt_user_id t" "mem_org_id m' = rt_org_id t"
    by blast
  let ?d1 = "d\<lparr>refresh_tokens :=
                map (\<lambda>x. if rt_id x = rt_id t then x\<lparr>rt_revoked := True\<rparr> else x) (refresh_tokens d)\<rparr>"
  have f1: "hash_token L rnd \<notin> set (map rt_token_hash (refresh_tokens ?d1))"
    using fresh by (simp add: revoked_hashes del: map_map)
  note g = generate_tokens_fresh [OF f1, of cfg now "user_id u'" "mem_org_id m'" "mem_role m'" d]
  have r: "refresh_token L cfg now rnd T d =
      generate_tokens L cfg now rnd (user_id u') (mem_org_id m') (mem_role m') d ?d1"
    unfolding refresh_token_def Let_def by (simp only: q j sum.case option.case prod.case)
  let ?resp = "\<lparr>access_token = create_access_token L cfg now
                [(''user_id'', JInt (user_id u')), (''org_id'', JInt (mem_org_id m')),
                 (''role'', JStr (mem_role m'))],
              resp_refresh_token = rnd, token_type = ''bearer'',
              expires_in = ACCESS_TTL_MIN cfg * 60\<rparr>"
  let ?new = "\<lparr>rt_id = next_id (map rt_id (refresh_tokens ?d1)), rt_user_id = user_id u',
             rt_org_id = mem_org_id m', rt_token_hash = hash_token L rnd,
             rt_expires_at = now + timedelta_days (REFRESH_TTL_DAYS cfg), rt_revoked = False\<rparr>"
  show ?thesis
    unfolding r g
    by (rule exI [of _ ?resp], rule exI [of _ ?new]) (simp add: um)
qed

lemma refresh_token_rejects:
  assumes "\<forall>x\<in>set (refresh_tokens d). rt_token_hash x = hash_token L T \<longrightarrow> rt_revoked x"
  shows "refresh_token L cfg now rnd T d = (Inl (HTTPException 401 ''Invalid refresh token''), d)"
proof -
  have "filter (\<lambda>x. rt_token_hash x = hash_token L T \<and> rt_expires_at x > now
                    \<and> rt_revoked x = False) (refresh_tokens d) = []"
    using assms by (auto simp: filter_empty_conv)
  then show ?thesis
    unfolding refresh_token_def Let_def by simp
qed


lemma distinct_key_eq:
  "distinct (map f xs) \<Longrightarrow> x \<in> set xs \<Longrightarrow> y \<in> set xs \<Longrightarrow> f x = f y \<Longrightarrow> x = y"
  by (simp add: distinct_map inj_on_def)


text \<open>
  Claim C1, as amended. Refresh-token rotation is single-use. In a database that
  satisfies its unique constraints, for every refresh token \<open>T\<close> that is stored,
  unrevoked and unexpired and whose user still has a membership in the organization the
  token is bound to, \<open>refresh(T)\<close> succeeds (the token \<open>T'\<close> drawn not being stored
  already), marks the row of \<open>T\<close> revoked, stores the hash of \<open>T'\<close> and returns a pair
  whose refresh token \<open>T'\<close> differs from \<open>T\<close>; every later \<open>refresh(T)\<close> fails with 401;
  and \<open>refresh(T')\<close> succeeds as long as \<open>T'\<close> has not expired.
\<close>

theorem refresh_token_rotation:
  assumes wf: "wf_db d"
      and stored: "t \<in> set (refresh_tokens d)" "rt_token_hash t = hash_token L T"
      and live: "now < rt_expires_at t" "\<not> rt_revoked t"
      and member: "u \<in> set (users d)" "m \<in> set (memberships d)" "user_id u = rt_user_id t"
                  "mem_user_id m = rt_user_id t" "mem_org_id m = rt_org_id t"
      and fresh: "hash_token L rnd \<notin> set (map rt_token_hash (refresh_tokens d))"
  shows "\<exists>resp d'. refresh_token L cfg now rnd T d = (Inr resp, d')
           \<and> resp_refresh_token resp = rnd \<and> rnd \<noteq> T
           \<and> t\<lparr>rt_revoked := True\<rparr> \<in> set (refresh_tokens d')
           \<and> (\<forall>x\<in>set (refresh_tokens d'). rt_token_hash x = hash_token L T \<longrightarrow> rt_revoked x)
           \<and> map rt_token_hash (refresh_tokens d') =
               map rt_token_hash (refresh_tokens d) @ [hash_token L rnd]
           \<and> (\<forall>now' rnd'. refresh_token L cfg now' rnd' T d' =
                  (Inl (HTTPException 401 ''Invalid refresh token''), d'))
           \<and> (\<forall>now' rnd'. now' < now + timedelta_days (REFRESH_TTL_DAYS cfg)
                  \<and> hash_token L rnd' \<notin> set (map rt_token_hash (refresh_tokens d')) \<longrightarrow>
                  (\<exists>resp' d''. refresh_token L cfg now' rnd' rnd d' = (Inr resp', d'')
                      \<and> resp_refresh_token resp' = rnd'))"
proof -
  have dh: "distinct (map rt_token_hash (refresh_tokens d))"
    using wf by (simp add: wf_db_def)
  let ?rev = "\<lambda>x. if rt_id x = rt_id t then x\<lparr>rt_revoked := True\<rparr> else x"
  from refresh_token_succeeds [OF dh stored live member fresh, of cfg]
  obtain resp new where
    ok: "refresh_token L cfg now rnd T d =
           (Inr resp, d\<lparr>refresh_tokens := map ?rev (refresh_tokens d) @ [new]\<rparr>)"
    and resp: "resp_refresh_token resp = rnd"
    and new: "rt_token_hash new = hash_token L rnd" "rt_user_id new = rt_user_id t"
             "rt_org_id new = rt_org_id t"
             "rt_expires_at new = now + timedelta_days (REFRESH_TTL_DAYS cfg)" "\<not> rt_revoked new"
    by blast
  let ?d' = "d\<lparr>refresh_tokens := map ?rev (refresh_tokens d) @ [new]\<rparr>"
  have differ: "hash_token L rnd \<noteq> hash_token L T"
    using fresh stored by force
  then have ne: "rnd \<noteq> T" by auto
  have marked: "t\<lparr>rt_revoked := True\<rparr> \<in> set (refresh_tokens ?d')"
    using stored(1) by (auto simp: image_iff intro!: bexI [of _ t])
  have revoked: "\<forall>x\<in>set (refresh_tokens ?d'). rt_token_hash x = hash_token L T \<longrightarrow> rt_revoked x"
  proof (intro ballI impI)
    fix x assume x: "x \<in> set (refresh_tokens ?d')" and h: "rt_token_hash x = hash_token L T"
    from x have "x = new \<or> (\<exists>y\<in>set (refresh_tokens d). x = ?rev y)" by auto
    then show "rt_revoked x"
    proof
      assume "x = new"
      with h new(1) differ show ?thesis by simp
    next
      assume "\<exists>y\<in>set (refresh_tokens d). x = ?rev y"
      then obtain y where y: "y \<in> set (refresh_tokens d)" "x = ?rev y" by blast
      have "rt_token_hash y = rt_token_hash t"
        using h y(2) stored(2) by (simp split: if_splits)
      from distinct_key_eq [OF dh y(1) stored(1) this] have "y = t" .
      with y(2) show ?thesis by simp
    qed
  qed
  have hashes: "map rt_token_hash (refresh_tokens ?d') =
               map rt_token_hash (refresh_tokens d) @ [hash_token L rnd]"
    using new(1) by (simp add: revoked_hashes del: map_map)
  have again: "refresh_token L cfg now' rnd' T ?d' =
                  (Inl (HTTPException 401 ''Invalid refresh token''), ?d')" for now' rnd'
    by (rule refresh_token_rejects [OF revoked])
  have next_ok: "\<exists>resp' d''. refresh_token L cfg now' rnd' rnd ?d' = (Inr resp', d'')
                      \<and> resp_refresh_token resp' = rnd'"
    if t': "now' < now + timedelta_days (REFRESH_TTL_DAYS cfg)"
      and f': "hash_token L rnd' \<notin> set (map rt_token_hash (refresh_tokens ?d'))"
    for now' rnd'
  proof -
    have dh': "distinct (map rt_token_hash (refresh_tokens ?d'))"
      using dh fresh new(1) by (simp add: revoked_hashes del: map_map)
    have s1: "new \<in> set (refresh_tokens ?d')" by simp
    have l1: "now' < rt_expires_at new" using t' new(4) by simp
    have m1: "u \<in> set (users ?d')" "m \<in> set (memberships ?d')" using member by simp_all
    have m2: "user_id u = rt_user_id new" "mem_user_id m = rt_user_id new"
             "mem_org_id m = rt_org_id new"
      using member new by simp_all
    from refresh_token_succeeds [OF dh' s1 new(1) l1 new(5) m1 m2 f', of cfg]
    show ?thesis by blast
  qed
  show ?thesis
    apply (rule exI [of _ resp], rule exI [of _ ?d'])
    apply (intro conjI allI impI)
           apply (rule ok)
          apply (rule resp)
         apply (rule ne)
        apply (rule marked)
       apply (rule revoked)
      apply (rule hashes)
     apply (rule again)
    apply (rule next_ok)
     apply blast
    apply blast
    done
qed



text \<open>
  Claim C1 as stated fails when the membership is gone: the token \<open>T1\<close> is stored,
  unrevoked and unexpired, yet \<open>refresh(T1)\<close> answers 401 "User or membership not found"
  and revokes nothing.
\<close>

theorem refresh_token_orphan_counterexample:
  "wf_db orphan_refresh_db
   \<and> filter (\<lambda>t. rt_token_hash t = hash_token example_externals ''T1'' \<and> rt_expires_at t > 1000
                 \<and> rt_revoked t = False) (refresh_tokens orphan_refresh_db)
       = [\<lparr>rt_id = 1, rt_user_id = 1, rt_org_id = 1, rt_token_hash = ''sha256:T1'',
           rt_expires_at = 605800, rt_revoked = False\<rparr>]
   \<and> refresh_token example_externals default_settings 1000 ''T2'' ''T1'' orphan_refresh_db
       = (Inl (HTTPException 401 ''User or membership not found''), orphan_refresh_db)"
  by (simp add: wf_db_def db_eval refresh_token_def hash_token_def example_externals_def)


theorem refresh_token_rotation_witness:
  "wf_db refresh_db
   \<and> (\<exists>resp d'. refresh_token example_externals default_settings 1000 ''T2'' ''T1'' refresh_db
                   = (Inr resp, d')
        \<and> resp_refresh_token resp = ''T2''
        \<and> \<lparr>rt_id = 1, rt_user_id = 1, rt_org_id = 1, rt_token_hash = ''sha256:T1'',
            rt_expires_at = 605800, rt_revoked = True\<rparr> \<in> set (refresh_tokens d')
        \<and> refresh_token example_externals default_settings 1001 ''T3'' ''T1'' d'
           = (Inl (HTTPException 401 ''Invalid refresh token''), d')
        \<and> (\<exists>resp' d''. refresh_token example_externals default_settings 1001 ''T3'' ''T2'' d'
                         = (Inr resp', d'') \<and> resp_refresh_token resp' = ''T3''))"
proof -
  let ?t = "\<lparr>rt_id = 1, rt_user_id = 1, rt_org_id = 1, rt_token_hash = ''sha256:T1'',
             rt_expires_at = 605800, rt_revoked = False\<rparr>"
  let ?u = "\<lparr>user_id = 1, user_email = ''admin@acme.com'', user_password_hash = Some ''$2b$12$h1''\<rparr>"
  let ?m = "\<lparr>mem_id = 1, mem_user_id = 1, mem_org_id = 1, mem_role = ''admin''\<rparr>"
  have wf: "wf_db refresh_db" by (simp add: wf_db_def db_eval)
  have s1: "?t \<in> set (refresh_tokens refresh_db)" by (simp add: db_eval)
  have s2: "rt_token_hash ?t = hash_token example_externals ''T1''"
    by (simp add: hash_token_def example_externals_def)
  have l1: "1000 < rt_expires_at ?t" and l2: "\<not> rt_revoked ?t" by simp_all
  have m1: "?u \<in> set (users refresh_db)" and m2: "?m \<in> set (memberships refresh_db)"
    by (simp_all add: db_eval)
  have m3: "user_id ?u = rt_user_id ?t" and m4: "mem_user_id ?m = rt_user_id ?t"
    and m5: "mem_org_id ?m = rt_org_id ?t" by simp_all
  have fresh: "hash_token example_externals ''T2'' \<notin> set (map rt_token_hash (refresh_tokens refresh_db))"
    by (simp add: db_eval hash_token_def example_externals_def)
  from refresh_token_rotation [OF wf s1 s2 l1 l2 m1 m2 m3 m4 m5 fresh, of default_settings]
  obtain resp d' where
    ok: "refresh_token example_externals default_settings 1000 ''T2'' ''T1'' refresh_db = (Inr resp, d')"
    and r: "resp_refresh_token resp = ''T2''"
    and marked: "?t\<lparr>rt_revoked := True\<rparr> \<in> set (refresh_tokens d')"
    and hashes: "map rt_token_hash (refresh_tokens d') =
                   map rt_token_hash (refresh_tokens refresh_db) @ [hash_token example_externals ''T2'']"
    and again: "\<forall>now' rnd'. refresh_token example_externals default_settings now' rnd' ''T1'' d' =
                  (Inl (HTTPException 401 ''Invalid refresh token''), d')"
    and nxt: "\<forall>now' rnd'. now' < 1000 + timedelta_days (REFRESH_TTL_DAYS default_settings)
                  \<and> hash_token example_externals rnd' \<notin> set (map rt_token_hash (refresh_tokens d')) \<longrightarrow>
                  (\<exists>resp' d''. refresh_token example_externals default_settings now' rnd' ''T2'' d'
                                 = (Inr resp', d'') \<and> resp_refresh_token resp' = rnd')"
    by blast
  have c1: "\<lparr>rt_id = 1, rt_user_id = 1, rt_org_id = 1, rt_token_hash = ''sha256:T1'',
            rt_expires_at = 605800, rt_revoked = True\<rparr> \<in> set (refresh_tokens d')"
    using marked by simp
  have c2: "refresh_token example_externals default_settings 1001 ''T3'' ''T1'' d'
           = (Inl (HTTPException 401 ''Invalid refresh token''), d')"
    using again by blast
  have f3: "hash_token example_externals ''T3'' \<notin> set (map rt_token_hash (refresh_tokens d'))"
    unfolding hashes by (simp add: db_eval hash_token_def example_externals_def)
  have t3: "(1001::int) < 1000 + timedelta_days (REFRESH_TTL_DAYS default_settings)"
    by (simp add: timedelta_days_def default_settings_def)
  have c3: "\<exists>resp' d''. refresh_token example_externals default_settings 1001 ''T3'' ''T2'' d'
                         = (Inr resp', d'') \<and> resp_refresh_token resp' = ''T3''"
    using nxt [rule_format, of 1001 "''T3''"] t3 f3 by blast
  have ex: "\<exists>resp d'. refresh_token example_externals default_settings 1000 ''T2'' ''T1'' refresh_db
                   = (Inr resp, d')
        \<and> resp_refresh_token resp = ''T2''
        \<and> \<lparr>rt_id = 1, rt_user_id = 1, rt_org_id = 1, rt_token_hash = ''sha256:T1'',
            rt_expires_at = 605800, rt_revoked = True\<rparr> \<in> set (refresh_tokens d')
        \<and> refresh_token example_externals default_settings 1001 ''T3'' ''T1'' d'
           = (Inl (HTTPException 401 ''Invalid refresh token''), d')
        \<and> (\<exists>resp' d''. refresh_token example_externals default_settings 1001 ''T3'' ''T2'' d'
                         = (Inr resp', d'') \<and> resp_refresh_token resp' = ''T3'')"
    by (rule exI [of _ resp], rule exI [of _ d'])
       (rule conjI [OF ok conjI [OF r conjI [OF c1 conjI [OF c2 c3]]]])
  show ?thesis by (rule conjI [OF wf ex])
qed

section \<open>The unique constraints are an invariant of the handlers\<close>

text \<open>
  The theorems above assume a database that satisfies its primary keys and unique
  constraints. Every handler that writes leaves such a database in that state, whether
  it succeeds or fails.
\<close>

lemma fold_max_ge: "a \<le> fold max ids a \<and> (\<forall>x\<in>set ids. x \<le> fold max ids a)" for a :: int
proof (induction ids arbitrary: a)
  case Nil
  then show ?case by simp
next
  case (Cons i ids)
  from Cons.IH [of "max i a"] show ?case by auto
qed

lemma next_id_fresh: "next_id ids \<notin> set ids"
proof
  assume "next_id ids \<in> set ids"
  with fold_max_ge [of 0 ids] have "next_id ids \<le> fold max ids 0" by blast
  then show False by (simp add: next_id_def)
qed

lemma add_organization_wf:
  "wf_db d \<Longrightarrow> add_organization d name subdomain = Inr (org, d') \<Longrightarrow> wf_db d'"
  using next_id_fresh [of "map org_id (organizations d)"]
  by (auto simp: add_organization_def wf_db_def Let_def split: if_splits)

lemma add_user_wf:
  "wf_db d \<Longrightarrow> add_user d email h = Inr (user, d') \<Longrightarrow> wf_db d'"
  using next_id_fresh [of "map user_id (users d)"]
  by (auto simp: add_user_def wf_db_def Let_def split: if_splits)

lemma add_membership_wf:
  "wf_db d \<Longrightarrow> add_membership d uid oid role = Inr (m, d') \<Longrightarrow> wf_db d'"
  using next_id_fresh [of "map mem_id (memberships d)"]
  by (auto simp: add_membership_def wf_db_def Let_def split: if_splits)

lemma add_refresh_token_wf:
  "wf_db d \<Longrightarrow> add_refresh_token d uid oid h e = Inr (t, d') \<Longrightarrow> wf_db d'"
  using next_id_fresh [of "map rt_id (refresh_tokens d)"]
  by (auto simp: add_refresh_token_def wf_db_def Let_def split: if_splits)

lemma generate_tokens_wf:
  assumes "wf_db committed" and "wf_db pending"
  shows "wf_db (snd (generate_tokens L cfg now rnd uid oid role committed pending))"
proof (cases "add_refresh_token pending uid oid (hash_token L rnd)
                (now + timedelta_days (REFRESH_TTL_DAYS cfg))")
  case (Inl e)
  then show ?thesis using assms(1) by (simp add: generate_tokens_def)
next
  case (Inr p)
  obtain t d' where p: "p = (t, d')" by (cases p)
  from add_refresh_token_wf [OF assms(2) Inr [unfolded p]] have "wf_db d'" .
  then show ?thesis using Inr p by (simp add: generate_tokens_def)
qed

lemma revoked_ids:
  "map rt_id (map (\<lambda>x. if rt_id x = i then x\<lparr>rt_revoked := True\<rparr> else x) xs) = map rt_id xs"
  by (induction xs) auto

lemma consumed_ids:
  "map otp_id (map (\<lambda>c. if otp_id c = i then c\<lparr>otp_consumed := v\<rparr> else c) xs) = map otp_id xs"
  by (induction xs) auto

lemma revoke_wf:
  "wf_db d \<Longrightarrow>
   wf_db (d\<lparr>refresh_tokens :=
            map (\<lambda>x. if rt_id x = i then x\<lparr>rt_revoked := True\<rparr> else x) (refresh_tokens d)\<rparr>)"
  by (simp add: wf_db_def revoked_ids revoked_hashes del: map_map)

lemma consume_wf:
  "wf_db d \<Longrightarrow>
   wf_db (d\<lparr>otp_codes :=
            map (\<lambda>c. if otp_id c = i then c\<lparr>otp_consumed := v\<rparr> else c) (otp_codes d)\<rparr>)"
  by (simp add: wf_db_def consumed_ids del: map_map)

lemma refresh_token_wf:
  assumes "wf_db d"
  shows "wf_db (snd (refresh_token L cfg now rnd T d))"
  using assms generate_tokens_wf [OF assms revoke_wf [OF assms]]
  by (auto simp: refresh_token_def Let_def split: sum.splits option.splits)

lemma verify_otp_wf:
  assumes "wf_db d"
  shows "wf_db (snd (verify_otp L cfg now rnd request d))"
  using assms generate_tokens_wf [OF assms consume_wf [OF assms]]
  by (auto simp: verify_otp_def Let_def split: sum.splits option.splits)

lemma register_wf:
  assumes wf: "wf_db d"
  shows "wf_db (snd (register L cfg now salt rnd request d))"
proof (cases "scalar_one_or_none
        (filter (\<lambda>org. org_subdomain org = reg_subdomain request) (organizations d))")
  case (Inl e)
  then show ?thesis using wf by (simp add: register_def)
next
  case s: (Inr found)
  show ?thesis
  proof (cases found)
    case (Some a)
    with s show ?thesis using wf by (simp add: register_def)
  next
    case None
    note s = s [unfolded None]
    show ?thesis
    proof (cases "scalar_one_or_none (filter (\<lambda>u. user_email u = reg_email request) (users d))")
      case (Inl e)
      with s show ?thesis using wf by (simp add: register_def)
    next
      case e: (Inr found_user)
      show ?thesis
      proof (cases found_user)
        case (Some a)
        with s e show ?thesis using wf by (simp add: register_def)
      next
        case None
        note e = e [unfolded None]
        show ?thesis
        proof (cases "add_organization d (reg_organization_name request) (reg_subdomain request)")
          case (Inl x)
          with s e show ?thesis using wf by (simp add: register_def)
        next
          case o: (Inr p1)
          obtain org d1 where p1: "p1 = (org, d1)" by (cases p1)
          note o = o [unfolded p1]
          from add_organization_wf [OF wf o] have wf1: "wf_db d1" .
          show ?thesis
          proof (cases "hash_password L salt (reg_password request)")
            case (Inl x)
            with s e o show ?thesis using wf by (simp add: register_def)
          next
            case h: (Inr password_hash)
            show ?thesis
            proof (cases "add_user d1 (reg_email request) (Some password_hash)")
              case (Inl x)
              with s e o h show ?thesis using wf by (simp add: register_def)
            next
              case a: (Inr p2)
              obtain user d2 where p2: "p2 = (user, d2)" by (cases p2)
              note a = a [unfolded p2]
              from add_user_wf [OF wf1 a] have wf2: "wf_db d2" .
              show ?thesis
              proof (cases "add_membership d2 (user_id user) (org_id org) ''admin''")
                case (Inl x)
                with s e o h a show ?thesis using wf by (simp add: register_def)
              next
                case m: (Inr p3)
                obtain membership d3 where p3: "p3 = (membership, d3)" by (cases p3)
                note m = m [unfolded p3]
                from add_membership_wf [OF wf2 m] have wf3: "wf_db d3" .
                from generate_tokens_wf [OF wf3 wf3]
                show ?thesis using s e o h a m by (simp add: register_def)
              qed
            qed
          qed
        qed
      qed
    qed
  qed
qed


lemma found_or_added_user_wf:
  assumes "wf_db d"
      and "(case found of Some user \<Rightarrow> Inr (user, d) | None \<Rightarrow> add_user d email None) = Inr (user, d1)"
  shows "wf_db d1"
  using assms add_user_wf [of d email None user d1] by (cases found) auto

lemma found_or_added_membership_wf:
  assumes "wf_db d"
      and "(case found of Some membership \<Rightarrow> Inr (membership, d)
            | None \<Rightarrow> add_membership d uid oid role) = Inr (membership, d1)"
  shows "wf_db d1"
  using assms add_membership_wf [of d uid oid role membership d1] by (cases found) auto

lemma google_login_wf:
  assumes wf: "wf_db d"
  shows "wf_db (snd (google_login L cfg now rnd request req d))"
proof (cases "verify_google_token L cfg now (id_token request)")
  case None
  then show ?thesis using wf by (simp add: google_login_def)
next
  case v: (Some user_info)
  show ?thesis
  proof (cases "user_info = []")
    case True
    with v show ?thesis using wf by (simp add: google_login_def)
  next
    case ne: False
    show ?thesis
    proof (cases "resolve_organization L cfg now req d")
      case (Inl e)
      with v ne show ?thesis using wf by (simp add: google_login_def)
    next
      case r: (Inr resolved)
      show ?thesis
      proof (cases resolved)
        case None
        with v ne r show ?thesis using wf by (simp add: google_login_def)
      next
        case (Some org)
        note r = r [unfolded Some]
        show ?thesis
        proof (cases "map_of user_info ''email''")
          case None
          with v ne r show ?thesis using wf by (simp add: google_login_def)
        next
          case em: (Some email)
          show ?thesis
          proof (cases "scalar_one_or_none (filter (\<lambda>u. user_email u = email) (users d))")
            case (Inl e)
            with v ne r em show ?thesis using wf by (simp add: google_login_def)
          next
            case q: (Inr found)
            show ?thesis
            proof (cases "case found of Some user \<Rightarrow> Inr (user, d) | None \<Rightarrow> add_user d email None")
              case (Inl e)
              with v ne r em q show ?thesis using wf by (simp add: google_login_def)
            next
              case a: (Inr p1)
              obtain user d1 where p1: "p1 = (user, d1)" by (cases p1)
              note a = a [unfolded p1]
              from found_or_added_user_wf [OF wf a] have wf1: "wf_db d1" .
              show ?thesis
              proof (cases "scalar_one_or_none
                      (filter (\<lambda>m. mem_user_id m = user_id user \<and> mem_org_id m = org_id org)
                              (memberships d1))")
                case (Inl e)
                with v ne r em q a show ?thesis using wf by (simp add: google_login_def)
              next
                case qm: (Inr found_membership)
                show ?thesis
                proof (cases "case found_membership of
                                Some membership \<Rightarrow> Inr (membership, d1)
                              | None \<Rightarrow> add_membership d1 (user_id user) (org_id org) ''member''")
                  case (Inl e)
                  with v ne r em q a qm show ?thesis using wf by (simp add: google_login_def)
                next
                  case b: (Inr p2)
                  obtain membership d2 where p2: "p2 = (membership, d2)" by (cases p2)
                  note b = b [unfolded p2]
                  from found_or_added_membership_wf [OF wf1 b] have wf2: "wf_db d2" .
                  from generate_tokens_wf [OF wf2 wf2]
                  show ?thesis using v ne r em q a qm b by (simp add: google_login_def)
                qed
              qed
            qed
          qed
        qed
      qed
    qed
  qed
qed

end
